theory Spec2Isabelle
  imports Main "HOL-Library.Sublist"
begin

section \<open>Values of the input record\<close>

text \<open>
  The executor of \<^verbatim>\<open>lib/rules/RuleSetCompiler.js\<close> reads an \<^verbatim>\<open>EffectData\<close> object.
  Its values are data only (strings, nested records such as \<^verbatim>\<open>descriptionData\<close>), so they
  are modelled as a datatype without functions. An object has its own properties, in an
  association list, and an optional prototype: \<^verbatim>\<open>hasOwnProperty\<close> looks at the own
  properties, the \<^verbatim>\<open>in\<close> operator and a property read walk the prototype chain.
  Numbers are integers here; no operation of the executor computes with them.
\<close>

datatype jsval =
    JUndefined
  | JNull
  | JBool bool
  | JNum int
  | JStr string
  | JObj jsobj
and jsobj =
    Object (own: "(string \<times> jsval) list") (proto: "jsobj option")

text \<open>What a callback or the compiler throws: the \<^verbatim>\<open>Error\<close> that \<^verbatim>\<open>this.error(path, value,
  message)\<close> builds, kept as its message and its path (the text of the JavaScript error is
  \<^verbatim>\<open>Compiling RuleSet failed: <message> (at <path>: <value>)\<close>; the text of the value is not
  kept), a \<^verbatim>\<open>TypeError\<close> that the language itself throws, or any other value thrown by a
  function the user supplied.\<close>

datatype js_error =
    CompileError (error_message: string) (error_path: string)
  | TypeError
  | Thrown jsval

text \<open>JavaScript's truthiness and \<^verbatim>\<open>typeof\<close> on these values.\<close>

fun truthy :: "jsval \<Rightarrow> bool" where
  "truthy JUndefined = False"
| "truthy JNull = False"
| "truthy (JBool b) = b"
| "truthy (JNum n) = (n \<noteq> 0)"
| "truthy (JStr s) = (s \<noteq> [])"
| "truthy (JObj obj) = True"

fun typeof :: "jsval \<Rightarrow> string" where
  "typeof JUndefined = ''undefined''"
| "typeof JNull = ''object''"
| "typeof (JBool b) = ''boolean''"
| "typeof (JNum n) = ''number''"
| "typeof (JStr s) = ''string''"
| "typeof (JObj obj) = ''object''"

text \<open>\<^verbatim>\<open>Object.prototype.hasOwnProperty.call(o, k)\<close>: own properties only.\<close>

fun hasOwn :: "jsobj \<Rightarrow> string \<Rightarrow> bool" where
  "hasOwn (Object ps pr) k = (map_of ps k \<noteq> None)"

text \<open>\<^verbatim>\<open>k in o\<close>: own properties, then the prototype chain.\<close>

fun hasProperty :: "jsobj \<Rightarrow> string \<Rightarrow> bool" where
  "hasProperty (Object ps pr) k =
     (case map_of ps k of
        Some v \<Rightarrow> True
      | None \<Rightarrow> (case pr of None \<Rightarrow> False | Some p \<Rightarrow> hasProperty p k))"

text \<open>\<^verbatim>\<open>o[k]\<close>: the own property, else the prototype's, else \<^verbatim>\<open>undefined\<close>.\<close>

fun getProperty :: "jsobj \<Rightarrow> string \<Rightarrow> jsval" where
  "getProperty (Object ps pr) k =
     (case map_of ps k of
        Some v \<Rightarrow> v
      | None \<Rightarrow> (case pr of None \<Rightarrow> JUndefined | Some p \<Rightarrow> getProperty p k))"

section \<open>Compiled rules\<close>

text \<open>\<^verbatim>\<open>Condition\<close> and \<^verbatim>\<open>RuleCondition\<close> (lines 61-72). A condition function is supplied
  by the user or by a handler: it returns a boolean (the truthiness of what it returns) or
  throws.\<close>

record Condition =
  matchWhenEmpty :: bool
  fn :: "jsval \<Rightarrow> js_error + bool"

text \<open>\<^verbatim>\<open>property: string | string[]\<close>.\<close>

datatype PropertyPath = Single string | Multi "string list"

record RuleCondition = Condition +
  property :: PropertyPath

text \<open>An effect is an object \<^verbatim>\<open>{type, value}\<close>; an entry of \<^verbatim>\<open>rule.effects\<close> is an effect
  or a function from the input record to a sequence of effects (line 93).\<close>

datatype Effect = Effect (effect_type: string) (effect_value: jsval)

datatype EffectItem =
    Static Effect
  | Generated "jsobj \<Rightarrow> js_error + Effect list"

text \<open>\<^verbatim>\<open>CompiledRule\<close> (lines 90-96): the fields \<^verbatim>\<open>conditions\<close>, \<^verbatim>\<open>effects\<close>,
  \<^verbatim>\<open>rules\<close> and \<^verbatim>\<open>oneOf\<close>, in this order; \<^verbatim>\<open>rules\<close> and \<^verbatim>\<open>oneOf\<close> are
  \<^verbatim>\<open>undefined\<close> (\<open>None\<close>) or an array.\<close>

datatype CompiledRule =
  CompiledRule
    "RuleCondition list"
    "EffectItem list"
    "CompiledRule list option"
    "CompiledRule list option"

section \<open>The executor\<close>

text \<open>The inner loop of lines 194-207: \<open>walk current p\<close> is the value of \<^verbatim>\<open>current\<close> after
  the loop over the segments \<^verbatim>\<open>p\<close>. A step needs \<^verbatim>\<open>current\<close> to be truthy, of type
  \<^verbatim>\<open>"object"\<close> and to own the segment.\<close>

fun walk :: "jsval \<Rightarrow> string list \<Rightarrow> jsval" where
  "walk current [] = current"
| "walk current (subProperty # p) =
     (if truthy current \<and> typeof current = ''object'' \<and>
         (case current of JObj obj \<Rightarrow> hasOwn obj subProperty | _ \<Rightarrow> False)
      then (case current of JObj obj \<Rightarrow> walk (getProperty obj subProperty) p | _ \<Rightarrow> JUndefined)
      else JUndefined)"

text \<open>The value a condition is tested on, lines 189-224: for an array path the result of the
  walk from \<^verbatim>\<open>data\<close>; for a single name \<^verbatim>\<open>data[p]\<close> when \<^verbatim>\<open>p in data\<close>. \<open>JUndefined\<close>
  is the case that falls through to line 228.\<close>

definition resolve :: "jsobj \<Rightarrow> PropertyPath \<Rightarrow> jsval" where
  "resolve data p =
     (case p of
        Multi ps \<Rightarrow> walk (JObj data) ps
      | Single s \<Rightarrow> (if hasProperty data s then getProperty data s else JUndefined))"

text \<open>The loop over \<^verbatim>\<open>rule.conditions\<close>, lines 185-231: \<open>Inr False\<close> is the
  \<^verbatim>\<open>return false\<close> of lines 211, 221 and 229, \<open>Inr True\<close> the end of the loop.\<close>

fun execConditions :: "jsobj \<Rightarrow> RuleCondition list \<Rightarrow> js_error + bool" where
  "execConditions data [] = Inr True"
| "execConditions data (condition # cs) =
     (let current = resolve data (property condition) in
      if current \<noteq> JUndefined then
        (case fn condition current of
           Inl e \<Rightarrow> Inl e
         | Inr b \<Rightarrow> if \<not> b then Inr False else execConditions data cs)
      else if \<not> matchWhenEmpty condition then Inr False
      else execConditions data cs)"

text \<open>The loop over \<^verbatim>\<open>rule.effects\<close>, lines 235-248; \<^verbatim>\<open>effects.push\<close> appends.\<close>

fun pushEffects :: "jsobj \<Rightarrow> EffectItem list \<Rightarrow> Effect list \<Rightarrow> js_error + Effect list" where
  "pushEffects data [] effects = Inr effects"
| "pushEffects data (Static effect # es) effects = pushEffects data es (effects @ [effect])"
| "pushEffects data (Generated effect # es) effects =
     (case effect data of
        Inl e \<Rightarrow> Inl e
      | Inr returnedEffects \<Rightarrow> pushEffects data es (effects @ returnedEffects))"

text \<open>\<^verbatim>\<open>execRule\<close>, lines 181-274, with its two loops over child rules: \<open>execRules\<close> is the
  loop of lines 253-256 (every child, the result ignored), \<open>execOneOf\<close> the loop of lines
  262-269 (stop at the first child that returns true). The array \<^verbatim>\<open>effects\<close> that the
  source mutates is passed in and returned.\<close>

fun execRule :: "jsobj \<Rightarrow> CompiledRule \<Rightarrow> Effect list \<Rightarrow> js_error + (bool \<times> Effect list)"
  and execRules :: "jsobj \<Rightarrow> CompiledRule list \<Rightarrow> Effect list \<Rightarrow> js_error + Effect list"
  and execOneOf :: "jsobj \<Rightarrow> CompiledRule list \<Rightarrow> Effect list \<Rightarrow> js_error + Effect list"
where
  "execRule data (CompiledRule conditions effectItems rules oneOf) effects =
     (case execConditions data conditions of
        Inl e \<Rightarrow> Inl e
      | Inr False \<Rightarrow> Inr (False, effects)
      | Inr True \<Rightarrow>
          (case pushEffects data effectItems effects of
             Inl e \<Rightarrow> Inl e
           | Inr effects1 \<Rightarrow>
               (case (case rules of None \<Rightarrow> Inr effects1
                      | Some childRules \<Rightarrow> execRules data childRules effects1) of
                  Inl e \<Rightarrow> Inl e
                | Inr effects2 \<Rightarrow>
                    (case (case oneOf of None \<Rightarrow> Inr effects2
                           | Some childRules \<Rightarrow> execOneOf data childRules effects2) of
                       Inl e \<Rightarrow> Inl e
                     | Inr effects3 \<Rightarrow> Inr (True, effects3)))))"
| "execRules data [] effects = Inr effects"
| "execRules data (childRule # childRules) effects =
     (case execRule data childRule effects of
        Inl e \<Rightarrow> Inl e
      | Inr (matched, effects1) \<Rightarrow> execRules data childRules effects1)"
| "execOneOf data [] effects = Inr effects"
| "execOneOf data (childRule # childRules) effects =
     (case execRule data childRule effects of
        Inl e \<Rightarrow> Inl e
      | Inr (matched, effects1) \<Rightarrow>
          if matched then Inr effects1 else execOneOf data childRules effects1)"

text \<open>\<^verbatim>\<open>exec\<close>, lines 278-285: a fresh array, \<^verbatim>\<open>execRule\<close> on every top-level rule.\<close>

definition exec :: "CompiledRule list \<Rightarrow> jsobj \<Rightarrow> js_error + Effect list" where
  "exec rules data = execRules data rules []"

section \<open>Configuration values\<close>

text \<open>
  What the user writes in a rule set: primitives, functions, regular expressions, arrays and
  plain objects (their own enumerable keys in the order of \<^verbatim>\<open>Object.keys\<close>, each key once).
  A function is a condition function: given a value it returns a boolean or throws. A regular
  expression is its \<^verbatim>\<open>test\<close> method, taken without the \<^verbatim>\<open>g\<close> and \<^verbatim>\<open>y\<close> flags, so that
  \<^verbatim>\<open>test\<close> has no state.
\<close>

datatype Raw =
    RUndefined
  | RNull
  | RBool bool
  | RNum int
  | RStr string
  | RFunction "jsval \<Rightarrow> js_error + bool"
  | RRegExp "string \<Rightarrow> bool"
  | RArray "Raw list"
  | RObject "(string \<times> Raw) list"

fun truthyRaw :: "Raw \<Rightarrow> bool" where
  "truthyRaw RUndefined = False"
| "truthyRaw RNull = False"
| "truthyRaw (RBool b) = b"
| "truthyRaw (RNum n) = (n \<noteq> 0)"
| "truthyRaw (RStr s) = (s \<noteq> [])"
| "truthyRaw _ = True"

fun typeofRaw :: "Raw \<Rightarrow> string" where
  "typeofRaw RUndefined = ''undefined''"
| "typeofRaw (RBool b) = ''boolean''"
| "typeofRaw (RNum n) = ''number''"
| "typeofRaw (RStr s) = ''string''"
| "typeofRaw (RFunction f) = ''function''"
| "typeofRaw _ = ''object''"

text \<open>\<^verbatim>\<open>condition === ""\<close>, \<^verbatim>\<open>value !== undefined\<close> and \<^verbatim>\<open>Array.isArray(value)\<close>.\<close>

fun isEmptyString :: "Raw \<Rightarrow> bool" where
  "isEmptyString (RStr s) = (s = [])"
| "isEmptyString _ = False"

fun isUndefined :: "Raw \<Rightarrow> bool" where
  "isUndefined RUndefined = True"
| "isUndefined _ = False"

fun isArray :: "Raw \<Rightarrow> bool" where
  "isArray (RArray xs) = True"
| "isArray _ = False"

text \<open>The decimal digits of an index, as a template literal writes it.\<close>

fun string_of_nat :: "nat \<Rightarrow> string" where
  "string_of_nat n =
     (if n < 10 then [''0123456789'' ! n]
      else string_of_nat (n div 10) @ [''0123456789'' ! (n mod 10)])"

declare string_of_nat.simps [simp del]

lemma string_of_nat_digits:
  "string_of_nat 0 = ''0''" "string_of_nat 1 = ''1''" "string_of_nat 2 = ''2''"
  by (simp_all add: string_of_nat.simps)

text \<open>\<^verbatim>\<open>str.startsWith(searchString)\<close>, from position 0.\<close>

definition startsWith :: "string \<Rightarrow> string \<Rightarrow> bool" where
  "startsWith str searchString = (take (length searchString) str = searchString)"

text \<open>
  The conversion of a configuration value to a string, as a template literal does it
  (\<^verbatim>\<open>ToString\<close>): \<open>toStringError v\<close> is what the conversion throws, \<open>None\<close> when it
  returns a string.
  \<^item> A primitive, a function and a regular expression have a string.
  \<^item> An array is joined: each element other than \<^verbatim>\<open>undefined\<close> and \<^verbatim>\<open>null\<close> is
    converted, in order (\<open>joinError\<close>).
  \<^item> A plain object without a property \<^verbatim>\<open>toString\<close> of its own has the string of
    \<^verbatim>\<open>Object.prototype.toString\<close>. With one that is a function, the function is called
    without arguments (its parameter is \<^verbatim>\<open>undefined\<close>): what it throws is thrown, and
    the boolean it returns has a string. With one that is not a function, the same is tried
    with the property \<^verbatim>\<open>valueOf\<close>; when that is no function either, or is absent (then
    \<^verbatim>\<open>Object.prototype.valueOf\<close> returns the object itself), the conversion throws a
    \<^verbatim>\<open>TypeError\<close>.
\<close>

fun isNull :: "Raw \<Rightarrow> bool" where
  "isNull RNull = True"
| "isNull _ = False"

fun toStringError :: "Raw \<Rightarrow> js_error option"
  and joinError :: "Raw list \<Rightarrow> js_error option"
where
  "toStringError (RArray xs) = joinError xs"
| "toStringError (RObject kvs) =
     (case map_of kvs ''toString'' of
        None \<Rightarrow> None
      | Some (RFunction f) \<Rightarrow> (case f JUndefined of Inl e \<Rightarrow> Some e | Inr b \<Rightarrow> None)
      | Some _ \<Rightarrow>
          (case map_of kvs ''valueOf'' of
             Some (RFunction g) \<Rightarrow> (case g JUndefined of Inl e \<Rightarrow> Some e | Inr b \<Rightarrow> None)
           | _ \<Rightarrow> Some TypeError))"
| "toStringError _ = None"
| "joinError [] = None"
| "joinError (x # xs) =
     (case (if isUndefined x \<or> isNull x then None else toStringError x) of
        Some e \<Rightarrow> Some e
      | None \<Rightarrow> joinError xs)"

text \<open>\<^verbatim>\<open>error(path, value, message)\<close>, lines 524-528: the template literal converts the
  value first, so what that conversion throws is thrown instead of the \<^verbatim>\<open>Error\<close>.\<close>

definition error :: "string \<Rightarrow> Raw \<Rightarrow> string \<Rightarrow> js_error" where
  "error path v message =
     (case toStringError v of Some e \<Rightarrow> e | None \<Rightarrow> CompileError message path)"

section \<open>The condition compiler\<close>

text \<open>\<^verbatim>\<open>Array.prototype.some\<close> and \<^verbatim>\<open>every\<close> with a callback that may throw: they stop
  at the first element that decides, and a throw of the callback ends the call.\<close>

fun some :: "('a \<Rightarrow> js_error + bool) \<Rightarrow> 'a list \<Rightarrow> js_error + bool" where
  "some f [] = Inr False"
| "some f (x # xs) =
     (case f x of Inl e \<Rightarrow> Inl e | Inr b \<Rightarrow> if b then Inr True else some f xs)"

fun every :: "('a \<Rightarrow> js_error + bool) \<Rightarrow> 'a list \<Rightarrow> js_error + bool" where
  "every f [] = Inr True"
| "every f (x # xs) =
     (case f x of Inl e \<Rightarrow> Inl e | Inr b \<Rightarrow> if \<not> b then Inr False else every f xs)"

text \<open>\<^verbatim>\<open>combineConditionsOr\<close>, lines 484-497.\<close>

definition combineConditionsOr :: "Condition list \<Rightarrow> Condition" where
  "combineConditionsOr conditions =
     (if length conditions = 0 then \<lparr>matchWhenEmpty = False, fn = (\<lambda>v. Inr False)\<rparr>
      else if length conditions = 1 then conditions ! 0
      else \<lparr>matchWhenEmpty = list_ex matchWhenEmpty conditions,
            fn = (\<lambda>v. some (\<lambda>c. fn c v) conditions)\<rparr>)"

text \<open>\<^verbatim>\<open>combineConditionsAnd\<close>, lines 503-516.\<close>

definition combineConditionsAnd :: "Condition list \<Rightarrow> Condition" where
  "combineConditionsAnd conditions =
     (if length conditions = 0 then \<lparr>matchWhenEmpty = False, fn = (\<lambda>v. Inr False)\<rparr>
      else if length conditions = 1 then conditions ! 0
      else \<lparr>matchWhenEmpty = list_all matchWhenEmpty conditions,
            fn = (\<lambda>v. every (\<lambda>c. fn c v) conditions)\<rparr>)"

text \<open>
  \<^verbatim>\<open>compileCondition\<close>, lines 365-478. The tests of the source run in its order: the empty
  string (line 366), a falsy value (line 372), then the kind of the value; the last case of
  the \<open>case\<close> is line 412, reached by \<^verbatim>\<open>true\<close> and by a number other than 0.
  \<open>compileItems\<close> is the \<^verbatim>\<open>map\<close> of line 406, \<open>compileKeys\<close> the loop over
  \<^verbatim>\<open>Object.keys(condition)\<close> of lines 421-469 with the array \<^verbatim>\<open>conditions\<close> it pushes to,
  \<open>compileAnd\<close> the loop of lines 446-449.
\<close>

fun compileCondition :: "string \<Rightarrow> Raw \<Rightarrow> js_error + Condition"
  and compileItems :: "string \<Rightarrow> nat \<Rightarrow> Raw list \<Rightarrow> js_error + Condition list"
  and compileKeys :: "string \<Rightarrow> (string \<times> Raw) list \<Rightarrow> Condition list \<Rightarrow> js_error + Condition list"
  and compileAnd :: "string \<Rightarrow> nat \<Rightarrow> Raw list \<Rightarrow> Condition list \<Rightarrow> js_error + Condition list"
where
  "compileCondition path condition =
     (if isEmptyString condition then
        Inr \<lparr>matchWhenEmpty = True, fn = (\<lambda>str. Inr (str = JStr ''''))\<rparr>
      else if \<not> truthyRaw condition then
        Inl (error path condition ''Expected condition but got falsy value'')
      else
        (case condition of
           RStr s \<Rightarrow>
             Inr \<lparr>matchWhenEmpty = (length s = 0),
                  fn = (\<lambda>str. Inr (case str of JStr x \<Rightarrow> startsWith x s | _ \<Rightarrow> False))\<rparr>
         | RFunction f \<Rightarrow>
             (case f (JStr '''') of
                Inl e \<Rightarrow> Inl (error path condition ''Evaluation of condition function threw error'')
              | Inr b \<Rightarrow> Inr \<lparr>matchWhenEmpty = b, fn = f\<rparr>)
         | RRegExp test \<Rightarrow>
             Inr \<lparr>matchWhenEmpty = test '''',
                  fn = (\<lambda>v. Inr (case v of JStr x \<Rightarrow> test x | _ \<Rightarrow> False))\<rparr>
         | RArray cs \<Rightarrow>
             (case compileItems path 0 cs of
                Inl e \<Rightarrow> Inl e
              | Inr items \<Rightarrow> Inr (combineConditionsOr items))
         | RObject kvs \<Rightarrow>
             (case compileKeys path kvs [] of
                Inl e \<Rightarrow> Inl e
              | Inr conditions \<Rightarrow>
                  if length conditions = 0 then
                    Inl (error path condition ''Expected condition, but got empty thing'')
                  else Inr (combineConditionsAnd conditions))
         | _ \<Rightarrow>
             Inl (error path condition
                   (''Unexpected '' @ typeofRaw condition @ '' when condition was expected''))))"
| "compileItems path i [] = Inr []"
| "compileItems path i (c # cs) =
     (case compileCondition (path @ ''['' @ string_of_nat i @ '']'') c of
        Inl e \<Rightarrow> Inl e
      | Inr item \<Rightarrow>
          (case compileItems path (i + 1) cs of
             Inl e \<Rightarrow> Inl e
           | Inr items \<Rightarrow> Inr (item # items)))"
| "compileKeys path [] conditions = Inr conditions"
| "compileKeys path ((key, v) # kvs) conditions =
     (if key = ''or'' then
        (if truthyRaw v then
           (case v of
              RArray cs \<Rightarrow>
                (case compileCondition (path @ ''.or'') (RArray cs) of
                   Inl e \<Rightarrow> Inl e
                 | Inr c \<Rightarrow> compileKeys path kvs (conditions @ [c]))
            | _ \<Rightarrow> Inl (error (path @ ''.or'') v ''Expected array of conditions''))
         else compileKeys path kvs conditions)
      else if key = ''and'' then
        (if truthyRaw v then
           (case v of
              RArray cs \<Rightarrow>
                (case compileAnd path 0 cs conditions of
                   Inl e \<Rightarrow> Inl e
                 | Inr conditions1 \<Rightarrow> compileKeys path kvs conditions1)
            | _ \<Rightarrow> Inl (error (path @ ''.and'') v ''Expected array of conditions''))
         else compileKeys path kvs conditions)
      else if key = ''not'' then
        (if truthyRaw v then
           (case compileCondition (path @ ''.not'') v of
              Inl e \<Rightarrow> Inl e
            | Inr matcher \<Rightarrow>
                compileKeys path kvs
                  (conditions @
                   [\<lparr>matchWhenEmpty = \<not> matchWhenEmpty matcher,
                     fn = (\<lambda>v. case fn matcher v of Inl e \<Rightarrow> Inl e | Inr b \<Rightarrow> Inr (\<not> b))\<rparr>]))
         else compileKeys path kvs conditions)
      else Inl (error (path @ ''.'' @ key) v
                  (''Unexpected property '' @ key @ '' in condition'')))"
| "compileAnd path i [] conditions = Inr conditions"
| "compileAnd path i (item # cs) conditions =
     (case compileCondition (path @ ''.and['' @ string_of_nat i @ '']'') item of
        Inl e \<Rightarrow> Inl e
      | Inr c \<Rightarrow> compileAnd path (i + 1) cs (conditions @ [c]))"

text \<open>The equation of \<open>compileCondition\<close> applies to every argument: it is unfolded by
  hand.\<close>

declare compileCondition.simps [simp del]

section \<open>The rule compiler\<close>

text \<open>\<^verbatim>\<open>References\<close>, line 114: the map that the handlers fill.\<close>

type_synonym References = "string \<rightharpoonup> Raw"

text \<open>
  A function tapped on \<^verbatim>\<open>hooks.rule\<close> (lines 136-143). It is called with the path, the
  rule, the set of unhandled properties, the rule being built and the references; it mutates
  the last three, so the model returns them, or it throws. The set is a list in insertion
  order. The hook is a \<^verbatim>\<open>SyncHook\<close> of the library \<^verbatim>\<open>tapable\<close>: \<^verbatim>\<open>call\<close> runs the
  tapped functions in the order of registration.
\<close>

type_synonym RuleHandler =
  "string \<Rightarrow> Raw \<Rightarrow> string list \<Rightarrow> CompiledRule \<Rightarrow> References \<Rightarrow>
   js_error + (string list \<times> CompiledRule \<times> References)"

fun callRuleHook ::
  "RuleHandler list \<Rightarrow> string \<Rightarrow> Raw \<Rightarrow> string list \<Rightarrow> CompiledRule \<Rightarrow> References \<Rightarrow>
   js_error + (string list \<times> CompiledRule \<times> References)" where
  "callRuleHook [] path rule unhandledProperties compiledRule refs =
     Inr (unhandledProperties, compiledRule, refs)"
| "callRuleHook (h # hs) path rule unhandledProperties compiledRule refs =
     (case h path rule unhandledProperties compiledRule refs of
        Inl e \<Rightarrow> Inl e
      | Inr (unhandledProperties1, compiledRule1, refs1) \<Rightarrow>
          callRuleHook hs path rule unhandledProperties1 compiledRule1 refs1)"

text \<open>Lines 315-319: the keys of \<^verbatim>\<open>Object.keys(rule)\<close> whose value is not \<^verbatim>\<open>undefined\<close>.
  \<^verbatim>\<open>Object.keys\<close> throws a \<^verbatim>\<open>TypeError\<close> on \<^verbatim>\<open>undefined\<close> and on \<^verbatim>\<open>null\<close>. The keys
  of an array and of a string are their indices; the other values have none.\<close>

fun definedKeys :: "Raw \<Rightarrow> js_error + string list" where
  "definedKeys RUndefined = Inl TypeError"
| "definedKeys RNull = Inl TypeError"
| "definedKeys (RObject kvs) = Inr (map fst (filter (\<lambda>(key, v). \<not> isUndefined v) kvs))"
| "definedKeys (RArray xs) =
     Inr (map string_of_nat (filter (\<lambda>i. \<not> isUndefined (xs ! i)) [0..<length xs]))"
| "definedKeys (RStr s) = Inr (map string_of_nat [0..<length s])"
| "definedKeys _ = Inr []"

text \<open>\<^verbatim>\<open>rule.rules\<close> and \<^verbatim>\<open>rule.oneOf\<close>: the read of a property whose name is not an index;
  only a plain object has one.\<close>

fun getRaw :: "Raw \<Rightarrow> string \<Rightarrow> Raw" where
  "getRaw (RObject kvs) key = (case map_of kvs key of Some v \<Rightarrow> v | None \<Rightarrow> RUndefined)"
| "getRaw _ key = RUndefined"

text \<open>\<^verbatim>\<open>[...unhandledProperties].join(", ")\<close>.\<close>

fun join :: "string \<Rightarrow> string list \<Rightarrow> string" where
  "join sep [] = []"
| "join sep [x] = x"
| "join sep (x # y # ys) = x @ sep @ join sep (y # ys)"

text \<open>The assignments \<^verbatim>\<open>compiledRule.rules = ...\<close> and \<^verbatim>\<open>compiledRule.oneOf = ...\<close>.\<close>

fun withRules :: "CompiledRule \<Rightarrow> CompiledRule list \<Rightarrow> CompiledRule" where
  "withRules (CompiledRule conditions effects rules oneOf) compiled =
     CompiledRule conditions effects (Some compiled) oneOf"

fun withOneOf :: "CompiledRule \<Rightarrow> CompiledRule list \<Rightarrow> CompiledRule" where
  "withOneOf (CompiledRule conditions effects rules oneOf) compiled =
     CompiledRule conditions effects rules (Some compiled)"

lemma getRaw_size: "getRaw rule key = RArray xs \<Longrightarrow> size_list size xs < size rule"
proof (cases rule)
  case (RObject kvs)
  assume g: "getRaw rule key = RArray xs"
  then have "map_of kvs key = Some (RArray xs)"
    using RObject by (simp split: option.splits)
  then have "(key, RArray xs) \<in> set kvs" by (rule map_of_SomeD)
  then have "size_prod (\<lambda>_. 0) size (key, RArray xs) \<le> size_list (size_prod (\<lambda>_. 0) size) kvs"
    by (simp add: size_list_estimation')
  then show ?thesis using RObject by simp
qed simp_all

text \<open>
  \<^verbatim>\<open>compileRules\<close> (lines 295-305) and \<^verbatim>\<open>compileRule\<close> (lines 313-358), for a compiler
  whose hook has the handlers \<open>hooks\<close>. \<open>compileRulesMap\<close> is the \<^verbatim>\<open>map\<close> of line 298,
  on the array that \<^verbatim>\<open>filter(Boolean)\<close> leaves, with its index. The references are passed on
  from one call to the next, as the one \<^verbatim>\<open>Map\<close> of the source is.
\<close>

function compileRules ::
    "RuleHandler list \<Rightarrow> string \<Rightarrow> Raw list \<Rightarrow> References \<Rightarrow>
     js_error + (CompiledRule list \<times> References)"
  and compileRulesMap ::
    "RuleHandler list \<Rightarrow> string \<Rightarrow> nat \<Rightarrow> Raw list \<Rightarrow> References \<Rightarrow>
     js_error + (CompiledRule list \<times> References)"
  and compileRule ::
    "RuleHandler list \<Rightarrow> string \<Rightarrow> Raw \<Rightarrow> References \<Rightarrow>
     js_error + (CompiledRule \<times> References)"
where
  "compileRules hooks path rules refs =
     compileRulesMap hooks path 0 (filter truthyRaw rules) refs"
| "compileRulesMap hooks path i [] refs = Inr ([], refs)"
| "compileRulesMap hooks path i (rule # rules) refs =
     (case compileRule hooks (path @ ''['' @ string_of_nat i @ '']'') rule refs of
        Inl e \<Rightarrow> Inl e
      | Inr (compiledRule, refs1) \<Rightarrow>
          (case compileRulesMap hooks path (i + 1) rules refs1 of
             Inl e \<Rightarrow> Inl e
           | Inr (compiledRules, refs2) \<Rightarrow> Inr (compiledRule # compiledRules, refs2)))"
| "compileRule hooks path rule refs =
     (case
        (case definedKeys rule of
           Inl e \<Rightarrow> Inl e
         | Inr unhandledProperties \<Rightarrow>
             callRuleHook hooks path rule unhandledProperties (CompiledRule [] [] None None) refs) of
        Inl e \<Rightarrow> Inl e
      | Inr (unhandledProperties1, compiledRule1, refs1) \<Rightarrow>
          (case
             (if List.member unhandledProperties1 ''rules'' then
                (case getRaw rule ''rules'' of
                   RArray rules \<Rightarrow>
                     (case compileRules hooks (path @ ''.rules'') rules refs1 of
                        Inl e \<Rightarrow> Inl e
                      | Inr (compiled, refs2) \<Rightarrow>
                          Inr (removeAll ''rules'' unhandledProperties1,
                               withRules compiledRule1 compiled, refs2))
                 | _ \<Rightarrow>
                     Inl (error path (getRaw rule ''rules'')
                           ''Rule.rules must be an array of rules''))
              else Inr (unhandledProperties1, compiledRule1, refs1)) of
             Inl e \<Rightarrow> Inl e
           | Inr (unhandledProperties2, compiledRule2, refs2) \<Rightarrow>
               (case
                  (if List.member unhandledProperties2 ''oneOf'' then
                     (case getRaw rule ''oneOf'' of
                        RArray oneOf \<Rightarrow>
                          (case compileRules hooks (path @ ''.oneOf'') oneOf refs2 of
                             Inl e \<Rightarrow> Inl e
                           | Inr (compiled, refs3) \<Rightarrow>
                               Inr (removeAll ''oneOf'' unhandledProperties2,
                                    withOneOf compiledRule2 compiled, refs3))
                      | _ \<Rightarrow>
                          Inl (error path (getRaw rule ''oneOf'')
                                ''Rule.oneOf must be an array of rules''))
                   else Inr (unhandledProperties2, compiledRule2, refs2)) of
                  Inl e \<Rightarrow> Inl e
                | Inr (unhandledProperties3, compiledRule3, refs3) \<Rightarrow>
                    if length unhandledProperties3 > 0 then
                      Inl (error path rule
                            (''Properties '' @ join '', '' unhandledProperties3 @ '' are unknown''))
                    else Inr (compiledRule3, refs3))))"
  by pat_completeness auto
termination
proof (relation "measure (\<lambda>x. case x of
          Inl (hooks, path, rules, refs) \<Rightarrow> 2 * size_list size rules + 1
        | Inr (Inl (hooks, path, i, rules, refs)) \<Rightarrow> 2 * size_list size rules
        | Inr (Inr (hooks, path, rule, refs)) \<Rightarrow> 2 * size rule)", goal_cases)
  case 1
  show ?case by simp
next
  case (2 hooks path rules refs)
  have "size_list size (filter truthyRaw rules) \<le> size_list size rules"
    by (induction rules) simp_all
  then show ?case by simp
next
  case 3
  show ?case by simp
next
  case 4
  show ?case by simp
next
  case 5
  then show ?case using getRaw_size by fastforce
next
  case 6
  then show ?case using getRaw_size by fastforce
qed

declare compileRules.simps [simp del] compileRule.simps [simp del]

text \<open>\<^verbatim>\<open>compile\<close>, lines 156-287: the references and the function \<^verbatim>\<open>exec\<close> of the compiled
  rules, or the error of the compilation. The argument is the array of raw rules.\<close>

definition compile ::
  "RuleHandler list \<Rightarrow> Raw list \<Rightarrow> js_error + (References \<times> (jsobj \<Rightarrow> js_error + Effect list))"
where
  "compile hooks ruleSet =
     (case compileRules hooks ''ruleSet'' ruleSet Map.empty of
        Inl e \<Rightarrow> Inl e
      | Inr (rules, refs) \<Rightarrow> Inr (refs, exec rules))"

section \<open>Notions used in the statements\<close>

text \<open>A condition passes on an input record when its value is defined and its function
  returns true on it, or its value is absent and \<^verbatim>\<open>matchWhenEmpty\<close> is true; it fails when
  its value is defined and its function returns false, or its value is absent and
  \<^verbatim>\<open>matchWhenEmpty\<close> is false. A condition whose function throws does neither.\<close>

definition conditionPasses :: "jsobj \<Rightarrow> RuleCondition \<Rightarrow> bool" where
  "conditionPasses data c =
     (if resolve data (property c) \<noteq> JUndefined
      then fn c (resolve data (property c)) = Inr True
      else matchWhenEmpty c)"

definition conditionFails :: "jsobj \<Rightarrow> RuleCondition \<Rightarrow> bool" where
  "conditionFails data c =
     (if resolve data (property c) \<noteq> JUndefined
      then fn c (resolve data (property c)) = Inr False
      else \<not> matchWhenEmpty c)"

text \<open>The functions of a compiled rule return on an input record: every condition function
  on the value of its property, every effect function on the record, and so in all nested
  rules. A rule built from functions that never throw satisfies it on every record.\<close>

fun callbacksReturn :: "jsobj \<Rightarrow> CompiledRule \<Rightarrow> bool" where
  "callbacksReturn data (CompiledRule conditions effectItems rules oneOf) =
     (list_all (\<lambda>c. resolve data (property c) = JUndefined \<or>
                     \<not> isl (fn c (resolve data (property c)))) conditions \<and>
      list_all (\<lambda>e. case e of Static x \<Rightarrow> True | Generated g \<Rightarrow> \<not> isl (g data)) effectItems \<and>
      (case rules of None \<Rightarrow> True | Some childRules \<Rightarrow> list_all (callbacksReturn data) childRules) \<and>
      (case oneOf of None \<Rightarrow> True | Some childRules \<Rightarrow> list_all (callbacksReturn data) childRules))"

text \<open>Compiled rules for the examples: the condition that a handler of \<^verbatim>\<open>test: S\<close> builds
  from a non-empty string \<^verbatim>\<open>S\<close> on the property \<^verbatim>\<open>resource\<close> (function and
  \<^verbatim>\<open>matchWhenEmpty\<close> as \<open>compileCondition\<close> gives them for such a string), the static
  effect of \<^verbatim>\<open>use: name\<close>, a rule whose effect function throws when it is called, and
  the input record \<^verbatim>\<open>{resource: r}\<close>.\<close>

definition resourceTest :: "string \<Rightarrow> RuleCondition" where
  "resourceTest S =
     \<lparr>matchWhenEmpty = False,
      fn = (\<lambda>str. Inr (case str of JStr x \<Rightarrow> startsWith x S | _ \<Rightarrow> False)),
      property = Single ''resource''\<rparr>"

definition useEffect :: "string \<Rightarrow> EffectItem" where
  "useEffect name = Static (Effect ''use'' (JStr name))"

definition throwingRule :: CompiledRule where
  "throwingRule = CompiledRule [] [Generated (\<lambda>data. Inl (Thrown JNull))] None None"

definition resourceRecord :: "string \<Rightarrow> jsobj" where
  "resourceRecord r = Object [(''resource'', JStr r)] None"

text \<open>The value at the end of a path that is followed from a value through own properties
  only: \<open>None\<close> when a step meets a value that is not an object, or an object without the
  segment among its own properties.\<close>

fun ownValue :: "jsval \<Rightarrow> string list \<Rightarrow> jsval option" where
  "ownValue v [] = Some v"
| "ownValue (JObj (Object ps pr)) (k # p) =
     (case map_of ps k of None \<Rightarrow> None | Some v \<Rightarrow> ownValue v p)"
| "ownValue v (k # p) = None"

text \<open>The record \<^verbatim>\<open>{descriptionData: {type: "module"}}\<close> whose prototype is
  \<^verbatim>\<open>{resource: "x"}\<close>.\<close>

definition moduleRecord :: jsobj where
  "moduleRecord =
     Object [(''descriptionData'', JObj (Object [(''type'', JStr ''module'')] None))]
       (Some (resourceRecord ''x''))"

text \<open>A result without its error, to say that two compilations succeed alike: the path of a
  compilation only enters its errors.\<close>

definition forget :: "js_error + 'a \<Rightarrow> unit + 'a" where
  "forget r = map_sum (\<lambda>e. ()) id r"

section \<open>Lemmas about the executor\<close>

lemma execConditions_append:
  "execConditions data pre = Inr True \<Longrightarrow> execConditions data (pre @ cs) = execConditions data cs"
  by (induction pre) (auto simp: Let_def split: sum.splits if_splits)

lemma execRule_conditions_fail:
  "execConditions data cs = Inr False \<Longrightarrow>
   execRule data (CompiledRule cs es rs os) outEffects = Inr (False, outEffects)"
  by simp

lemma execRule_result_conditions:
  "execRule data (CompiledRule cs es rs os) outEffects = Inr (b, out) \<Longrightarrow>
   execConditions data cs = Inr b"
  by (auto split: sum.splits bool.splits)

lemma execRule_False_unchanged:
  "execRule data r outEffects = Inr (False, out) \<Longrightarrow> out = outEffects"
  by (cases r) (auto split: sum.splits bool.splits)

lemma pushEffects_acc:
  "pushEffects data es out = map_sum id ((@) out) (pushEffects data es [])"
proof (induction es arbitrary: out)
  case Nil
  show ?case by simp
next
  case (Cons x es)
  show ?case
  proof (cases x)
    case (Static e)
    have "pushEffects data es (out @ [e]) = map_sum id ((@) (out @ [e])) (pushEffects data es [])"
      by (rule Cons.IH)
    moreover have "pushEffects data es [e] = map_sum id ((@) [e]) (pushEffects data es [])"
      by (rule Cons.IH)
    ultimately show ?thesis
      using Static by (cases "pushEffects data es []") simp_all
  next
    case (Generated g)
    show ?thesis
    proof (cases "g data")
      case (Inl e)
      then show ?thesis using Generated by simp
    next
      case (Inr returned)
      have "pushEffects data es (out @ returned) =
            map_sum id ((@) (out @ returned)) (pushEffects data es [])"
        by (rule Cons.IH)
      moreover have "pushEffects data es returned =
            map_sum id ((@) returned) (pushEffects data es [])"
        by (rule Cons.IH)
      ultimately show ?thesis
        using Generated Inr by (cases "pushEffects data es []") simp_all
    qed
  qed
qed


lemma execRules_acc_aux:
  assumes "\<And>r out. r \<in> set rs \<Longrightarrow> execRule data r out = map_sum id (map_prod id ((@) out)) (execRule data r [])"
  shows "execRules data rs out = map_sum id ((@) out) (execRules data rs [])"
  using assms
proof (induction rs arbitrary: out)
  case Nil
  show ?case by simp
next
  case (Cons r rs)
  have r: "\<And>out. execRule data r out = map_sum id (map_prod id ((@) out)) (execRule data r [])"
    by (rule Cons.prems) simp
  have ih: "\<And>out. execRules data rs out = map_sum id ((@) out) (execRules data rs [])"
    by (rule Cons.IH, rule Cons.prems) simp
  show ?case
  proof (cases "execRule data r []")
    case (Inl e)
    then show ?thesis using r [of out] by simp
  next
    case (Inr p)
    obtain m o1 where p: "p = (m, o1)" by (cases p)
    have "execRules data rs (out @ o1) = map_sum id ((@) (out @ o1)) (execRules data rs [])"
      by (rule ih)
    moreover have "execRules data rs o1 = map_sum id ((@) o1) (execRules data rs [])"
      by (rule ih)
    ultimately show ?thesis
      using Inr p r [of out] by (cases "execRules data rs []") simp_all
  qed
qed

lemma execOneOf_acc_aux:
  assumes "\<And>r out. r \<in> set rs \<Longrightarrow> execRule data r out = map_sum id (map_prod id ((@) out)) (execRule data r [])"
  shows "execOneOf data rs out = map_sum id ((@) out) (execOneOf data rs [])"
  using assms
proof (induction rs arbitrary: out)
  case Nil
  show ?case by simp
next
  case (Cons r rs)
  have r: "\<And>out. execRule data r out = map_sum id (map_prod id ((@) out)) (execRule data r [])"
    by (rule Cons.prems) simp
  have ih: "\<And>out. execOneOf data rs out = map_sum id ((@) out) (execOneOf data rs [])"
    by (rule Cons.IH, rule Cons.prems) simp
  show ?case
  proof (cases "execRule data r []")
    case (Inl e)
    then show ?thesis using r [of out] by simp
  next
    case (Inr p)
    obtain m o1 where p: "p = (m, o1)" by (cases p)
    have "execOneOf data rs (out @ o1) = map_sum id ((@) (out @ o1)) (execOneOf data rs [])"
      by (rule ih)
    moreover have "execOneOf data rs o1 = map_sum id ((@) o1) (execOneOf data rs [])"
      by (rule ih)
    ultimately show ?thesis
      using Inr p r [of out] by (cases "execOneOf data rs []") simp_all
  qed
qed

lemma execRule_acc:
  "execRule data r out = map_sum id (map_prod id ((@) out)) (execRule data r [])"
proof (induction r arbitrary: out)
  case (CompiledRule cs es rs os)
  have rs: "\<And>out. (case rs of None \<Rightarrow> Inr out | Some ch \<Rightarrow> execRules data ch out) =
      map_sum id ((@) out) (case rs of None \<Rightarrow> Inr [] | Some ch \<Rightarrow> execRules data ch [])"
  proof -
    fix out
    show "(case rs of None \<Rightarrow> Inr out | Some ch \<Rightarrow> execRules data ch out) =
      map_sum id ((@) out) (case rs of None \<Rightarrow> Inr [] | Some ch \<Rightarrow> execRules data ch [])"
    proof (cases rs)
      case None
      then show ?thesis by simp
    next
      case (Some ch)
      have "execRules data ch out = map_sum id ((@) out) (execRules data ch [])"
        by (rule execRules_acc_aux, rule CompiledRule.IH(1)) (simp_all add: Some)
      then show ?thesis using Some by simp
    qed
  qed
  have os: "\<And>out. (case os of None \<Rightarrow> Inr out | Some ch \<Rightarrow> execOneOf data ch out) =
      map_sum id ((@) out) (case os of None \<Rightarrow> Inr [] | Some ch \<Rightarrow> execOneOf data ch [])"
  proof -
    fix out
    show "(case os of None \<Rightarrow> Inr out | Some ch \<Rightarrow> execOneOf data ch out) =
      map_sum id ((@) out) (case os of None \<Rightarrow> Inr [] | Some ch \<Rightarrow> execOneOf data ch [])"
    proof (cases os)
      case None
      then show ?thesis by simp
    next
      case (Some ch)
      have "execOneOf data ch out = map_sum id ((@) out) (execOneOf data ch [])"
        by (rule execOneOf_acc_aux, rule CompiledRule.IH(2)) (simp_all add: Some)
      then show ?thesis using Some by simp
    qed
  qed
  show ?case
  proof (cases "execConditions data cs")
    case (Inl e)
    then show ?thesis by simp
  next
    case (Inr b)
    show ?thesis
    proof (cases b)
      case False
      then show ?thesis using Inr by simp
    next
      case True
      note pe = pushEffects_acc [of data es out]
      show ?thesis
      proof (cases "pushEffects data es []")
        case (Inl e)
        then show ?thesis using Inr True pe by simp
      next
        case p1: (Inr p1)
        note g1 = rs [of "out @ p1"] rs [of p1]
        show ?thesis
        proof (cases "case rs of None \<Rightarrow> Inr [] | Some ch \<Rightarrow> execRules data ch []")
          case (Inl e)
          then show ?thesis using Inr True pe p1 g1 by simp
        next
          case p2: (Inr p2)
          note g2 = os [of "out @ p1 @ p2"] os [of "p1 @ p2"]
          show ?thesis
            using Inr True pe p1 g1 p2 g2
            by (cases "case os of None \<Rightarrow> Inr [] | Some ch \<Rightarrow> execOneOf data ch []")
              simp_all
        qed
      qed
    qed
  qed
qed

lemma execRules_acc: "execRules data rs out = map_sum id ((@) out) (execRules data rs [])"
  by (rule execRules_acc_aux) (rule execRule_acc)

lemma execOneOf_acc: "execOneOf data rs out = map_sum id ((@) out) (execOneOf data rs [])"
  by (rule execOneOf_acc_aux) (rule execRule_acc)

lemma execRules_Inr_iff:
  "execRules data rs out = Inr out' \<longleftrightarrow>
   (\<exists>outs. list_all2 (\<lambda>r o1. \<exists>b. execRule data r [] = Inr (b, o1)) rs outs \<and> out' = out @ concat outs)"
proof (induction rs arbitrary: out out')
  case Nil
  show ?case by auto
next
  case (Cons r rs)
  show ?case
  proof (cases "execRule data r []")
    case (Inl e)
    then show ?thesis
      using execRule_acc [of data r out] by (simp add: list_all2_Cons1)
  next
    case (Inr p)
    obtain m o1 where p: "p = (m, o1)" by (cases p)
    have "execRules data (r # rs) out = execRules data rs (out @ o1)"
      using execRule_acc [of data r out] Inr p by simp
    then show ?thesis
      using Cons.IH [of "out @ o1" out'] Inr p by (auto simp: list_all2_Cons1)
  qed
qed

lemma execConditions_True_iff:
  "execConditions data cs = Inr True \<longleftrightarrow> list_all (conditionPasses data) cs"
  by (induction cs) (auto simp: conditionPasses_def Let_def split: sum.splits)

lemma execConditions_fails:
  "list_all (conditionPasses data) pre \<Longrightarrow> conditionFails data c \<Longrightarrow>
   execConditions data (pre @ c # post) = Inr False"
  by (simp add: execConditions_append execConditions_True_iff conditionFails_def Let_def
      split: if_splits)

lemma execConditions_False_iff:
  "execConditions data cs = Inr False \<longleftrightarrow>
   (\<exists>pre c post. cs = pre @ c # post \<and> list_all (conditionPasses data) pre \<and> conditionFails data c)"
proof
  show "execConditions data cs = Inr False \<Longrightarrow>
    \<exists>pre c post. cs = pre @ c # post \<and> list_all (conditionPasses data) pre \<and> conditionFails data c"
  proof (induction cs)
    case Nil
    then show ?case by simp
  next
    case (Cons c cs)
    show ?case
    proof (cases "conditionFails data c")
      case True
      then have "c # cs = [] @ c # cs \<and> list_all (conditionPasses data) [] \<and> conditionFails data c"
        by simp
      then show ?thesis by blast
    next
      case False
      then have p: "conditionPasses data c" and r: "execConditions data cs = Inr False"
        using Cons.prems
        by (auto simp: conditionPasses_def conditionFails_def Let_def split: sum.splits if_splits)
      from Cons.IH [OF r] obtain pre d post where
        "cs = pre @ d # post" "list_all (conditionPasses data) pre" "conditionFails data d"
        by blast
      then have "c # cs = (c # pre) @ d # post \<and> list_all (conditionPasses data) (c # pre) \<and>
          conditionFails data d"
        using p by simp
      then show ?thesis by blast
    qed
  qed
next
  assume "\<exists>pre c post. cs = pre @ c # post \<and> list_all (conditionPasses data) pre \<and> conditionFails data c"
  then show "execConditions data cs = Inr False"
    using execConditions_fails by blast
qed


lemma execOneOf_skip:
  "\<forall>r\<in>set pre. \<exists>e. execRule data r effects = Inr (False, e) \<Longrightarrow>
   execOneOf data (pre @ rest) effects = execOneOf data rest effects"
proof (induction pre)
  case Nil
  show ?case by simp
next
  case (Cons r pre)
  then obtain e where e: "execRule data r effects = Inr (False, e)" by auto
  then have "e = effects" by (rule execRule_False_unchanged)
  then show ?case using e Cons by simp
qed


lemma pushEffects_returns:
  "list_all (\<lambda>e. case e of Static x \<Rightarrow> True | Generated g \<Rightarrow> \<not> isl (g data)) es \<Longrightarrow>
   \<exists>out. pushEffects data es effects = Inr out"
proof (induction es arbitrary: effects)
  case Nil
  show ?case by simp
next
  case (Cons x es)
  then show ?case by (cases x) (auto simp: isl_def split: sum.splits)
qed

lemma execConditions_returns:
  "list_all (\<lambda>c. resolve data (property c) = JUndefined \<or>
                     \<not> isl (fn c (resolve data (property c)))) cs \<Longrightarrow>
   \<exists>b. execConditions data cs = Inr b"
  by (induction cs) (auto simp: Let_def isl_def split: sum.splits)

lemma execRules_returns_aux:
  assumes "\<And>r effects. r \<in> set rs \<Longrightarrow> \<exists>b out. execRule data r effects = Inr (b, out)"
  shows "\<exists>out. execRules data rs effects = Inr out"
  using assms
proof (induction rs arbitrary: effects)
  case Nil
  show ?case by simp
next
  case (Cons r rs)
  obtain b out where "execRule data r effects = Inr (b, out)"
    using Cons.prems [of r effects] by auto
  moreover have "\<exists>out'. execRules data rs out = Inr out'"
    by (rule Cons.IH) (simp add: Cons.prems)
  ultimately show ?case by simp
qed

lemma execOneOf_returns_aux:
  assumes "\<And>r effects. r \<in> set rs \<Longrightarrow> \<exists>b out. execRule data r effects = Inr (b, out)"
  shows "\<exists>out. execOneOf data rs effects = Inr out"
  using assms
proof (induction rs arbitrary: effects)
  case Nil
  show ?case by simp
next
  case (Cons r rs)
  obtain b out where "execRule data r effects = Inr (b, out)"
    using Cons.prems [of r effects] by auto
  moreover have "\<exists>out'. execOneOf data rs out = Inr out'"
    by (rule Cons.IH) (simp add: Cons.prems)
  ultimately show ?case by simp
qed

lemma execRule_returns:
  "callbacksReturn data r \<Longrightarrow> \<exists>b out. execRule data r effects = Inr (b, out)"
proof (induction r arbitrary: effects)
  case (CompiledRule cs es rs os)
  obtain b where b: "execConditions data cs = Inr b"
    using CompiledRule.prems execConditions_returns by auto
  show ?case
  proof (cases b)
    case False
    then have "execRule data (CompiledRule cs es rs os) effects = Inr (False, effects)"
      using b by simp
    then show ?thesis by blast
  next
    case True
    obtain e1 where e1: "pushEffects data es effects = Inr e1"
      using CompiledRule.prems pushEffects_returns by fastforce
    have "\<exists>e2. (case rs of None \<Rightarrow> Inr e1 | Some ch \<Rightarrow> execRules data ch e1) = Inr e2"
    proof (cases rs)
      case None
      then show ?thesis by simp
    next
      case (Some ch)
      have "\<exists>out. execRules data ch e1 = Inr out"
      proof (rule execRules_returns_aux)
        fix r effects
        assume "r \<in> set ch"
        then show "\<exists>b out. execRule data r effects = Inr (b, out)"
          using CompiledRule.IH(1) [of ch r effects] CompiledRule.prems Some
          by (simp add: list_all_iff)
      qed
      then show ?thesis using Some by simp
    qed
    then obtain e2 where e2: "(case rs of None \<Rightarrow> Inr e1 | Some ch \<Rightarrow> execRules data ch e1) = Inr e2"
      by blast
    have "\<exists>e3. (case os of None \<Rightarrow> Inr e2 | Some ch \<Rightarrow> execOneOf data ch e2) = Inr e3"
    proof (cases os)
      case None
      then show ?thesis by simp
    next
      case (Some ch)
      have "\<exists>out. execOneOf data ch e2 = Inr out"
      proof (rule execOneOf_returns_aux)
        fix r effects
        assume "r \<in> set ch"
        then show "\<exists>b out. execRule data r effects = Inr (b, out)"
          using CompiledRule.IH(2) [of ch r effects] CompiledRule.prems Some
          by (simp add: list_all_iff)
      qed
      then show ?thesis using Some by simp
    qed
    then obtain e3 where "(case os of None \<Rightarrow> Inr e2 | Some ch \<Rightarrow> execOneOf data ch e2) = Inr e3"
      by blast
    then have "execRule data (CompiledRule cs es rs os) effects = Inr (True, e3)"
      using b True e1 e2 by simp
    then show ?thesis by blast
  qed
qed


lemma exec_returns:
  "list_all (callbacksReturn data) rules \<Longrightarrow> \<exists>out. exec rules data = Inr out"
  unfolding exec_def
  by (rule execRules_returns_aux) (simp add: list_all_iff execRule_returns)


lemma execRule_rules_group:
  assumes "execConditions data conditions = Inr True"
      and "pushEffects data effectItems effects = Inr effectsOwn"
  shows "execRule data (CompiledRule conditions effectItems (Some childRules) oneOf) effects
           = Inr (True, out) \<longleftrightarrow>
         (\<exists>outs. list_all2 (\<lambda>rule appended. \<exists>matched. execRule data rule [] = Inr (matched, appended))
                   childRules outs \<and>
                 (case oneOf of None \<Rightarrow> Inr (effectsOwn @ concat outs)
                  | Some rs \<Rightarrow> execOneOf data rs (effectsOwn @ concat outs)) = Inr out)"
proof -
  let ?G = "\<lambda>e. case oneOf of None \<Rightarrow> Inr e | Some rs \<Rightarrow> execOneOf data rs e"
  have "execRule data (CompiledRule conditions effectItems (Some childRules) oneOf) effects
          = Inr (True, out) \<longleftrightarrow>
        (\<exists>e. execRules data childRules effectsOwn = Inr e \<and> ?G e = Inr out)"
    using assms
    by (cases "execRules data childRules effectsOwn")
      (auto split: sum.splits)
  also have "\<dots> \<longleftrightarrow>
      (\<exists>outs. list_all2 (\<lambda>rule appended. \<exists>matched. execRule data rule [] = Inr (matched, appended))
                   childRules outs \<and> ?G (effectsOwn @ concat outs) = Inr out)"
    using execRules_Inr_iff [of data childRules effectsOwn] by auto
  finally show ?thesis .
qed

lemma walk_step:
  "walk current (subProperty # p) =
     (case current of
        JObj obj \<Rightarrow> if hasOwn obj subProperty then walk (getProperty obj subProperty) p
                    else JUndefined
      | _ \<Rightarrow> JUndefined)"
  by (cases current) simp_all

lemma getProperty_absent: "\<not> hasProperty obj k \<Longrightarrow> getProperty obj k = JUndefined"
  by (induction obj k rule: hasProperty.induct) (auto split: option.splits)

lemma resolve_Single: "resolve data (Single k) = getProperty data k"
  by (simp add: resolve_def getProperty_absent)

lemma resolve_Multi_not_own: "\<not> hasOwn data k \<Longrightarrow> resolve data (Multi (k # p)) = JUndefined"
  by (simp add: resolve_def)

lemma walk_ownValue:
  "walk current p = (case ownValue current p of Some v \<Rightarrow> v | None \<Rightarrow> JUndefined)"
proof (induction p arbitrary: current)
  case Nil
  show ?case by simp
next
  case (Cons k p)
  show ?case
  proof (cases current)
    case (JObj obj)
    obtain ps pr where obj: "obj = Object ps pr" by (cases obj)
    show ?thesis
      using Cons.IH JObj obj by (cases "map_of ps k") simp_all
  qed simp_all
qed

section \<open>Lemmas about the condition compiler\<close>

text \<open>\<open>compileCondition\<close> by the kind of the configuration value.\<close>

lemma error_primitive [simp]:
  "error path RUndefined message = CompileError message path"
  "error path RNull message = CompileError message path"
  "error path (RBool b) message = CompileError message path"
  "error path (RNum n) message = CompileError message path"
  "error path (RStr s) message = CompileError message path"
  "error path (RFunction f) message = CompileError message path"
  "error path (RRegExp test) message = CompileError message path"
  by (simp_all add: error_def)

lemma compileCondition_unfold [simp]:
  "compileCondition path (RStr s) =
     (if s = [] then Inr \<lparr>matchWhenEmpty = True, fn = (\<lambda>str. Inr (str = JStr []))\<rparr>
      else Inr \<lparr>matchWhenEmpty = (length s = 0),
                fn = (\<lambda>str. Inr (case str of JStr x \<Rightarrow> startsWith x s | _ \<Rightarrow> False))\<rparr>)"
  "compileCondition path RUndefined =
     Inl (CompileError ''Expected condition but got falsy value'' path)"
  "compileCondition path RNull =
     Inl (CompileError ''Expected condition but got falsy value'' path)"
  "compileCondition path (RBool b) =
     (if b then Inl (CompileError ''Unexpected boolean when condition was expected'' path)
      else Inl (CompileError ''Expected condition but got falsy value'' path))"
  "compileCondition path (RNum n) =
     (if n \<noteq> 0 then Inl (CompileError ''Unexpected number when condition was expected'' path)
      else Inl (CompileError ''Expected condition but got falsy value'' path))"
  "compileCondition path (RFunction f) =
     (case f (JStr []) of
        Inl e \<Rightarrow> Inl (CompileError ''Evaluation of condition function threw error'' path)
      | Inr b \<Rightarrow> Inr \<lparr>matchWhenEmpty = b, fn = f\<rparr>)"
  "compileCondition path (RRegExp test) =
     Inr \<lparr>matchWhenEmpty = test [],
          fn = (\<lambda>v. Inr (case v of JStr x \<Rightarrow> test x | _ \<Rightarrow> False))\<rparr>"
  "compileCondition path (RArray cs) =
     (case compileItems path 0 cs of
        Inl e \<Rightarrow> Inl e
      | Inr items \<Rightarrow> Inr (combineConditionsOr items))"
  "compileCondition path (RObject kvs) =
     (case compileKeys path kvs [] of
        Inl e \<Rightarrow> Inl e
      | Inr conditions \<Rightarrow>
          if length conditions = 0 then
            Inl (error path (RObject kvs) ''Expected condition, but got empty thing'')
          else Inr (combineConditionsAnd conditions))"
  by (simp_all add: compileCondition.simps split: sum.splits)

lemma startsWith_prefix: "startsWith x s \<longleftrightarrow> prefix s x"
proof
  assume "startsWith x s"
  then have "x = s @ drop (length s) x"
    unfolding startsWith_def by (metis append_take_drop_id)
  then show "prefix s x" by (rule prefixI)
next
  assume "prefix s x"
  then show "startsWith x s" by (auto simp: startsWith_def prefix_def)
qed

lemma some_True_imp: "some f xs = Inr True \<Longrightarrow> \<exists>x\<in>set xs. f x = Inr True"
  by (induction xs) (auto split: sum.splits if_splits)

lemma some_False_iff: "some f xs = Inr False \<longleftrightarrow> (\<forall>x\<in>set xs. f x = Inr False)"
  by (induction xs) (auto split: sum.splits if_splits)

lemma some_returns:
  "\<forall>x\<in>set xs. \<not> isl (f x) \<Longrightarrow> some f xs = Inr (\<exists>x\<in>set xs. f x = Inr True)"
  by (induction xs) (auto simp: isl_def split: sum.splits if_splits)

text \<open>Whether a condition compiles, and to what, does not depend on the path.\<close>

lemma forget_simps [simp]: "forget (Inl e) = Inl ()" "forget (Inr x) = Inr x"
  by (simp_all add: forget_def)

lemma forget_eq_Inr: "forget a = forget b \<Longrightarrow> a = Inr x \<Longrightarrow> b = Inr x"
  by (cases b) (simp_all add: forget_def)

lemma forget_case:
  "forget a = forget b \<Longrightarrow>
   (\<And>x. a = Inr x \<Longrightarrow> b = Inr x \<Longrightarrow> forget (f x) = forget (g x)) \<Longrightarrow>
   forget (case a of Inl e \<Rightarrow> Inl e | Inr x \<Rightarrow> f x) =
   forget (case b of Inl e \<Rightarrow> Inl e | Inr x \<Rightarrow> g x)"
  by (cases a; cases b) (simp_all add: forget_def)

lemma path_independent:
  "\<forall>q. forget (compileCondition p C) = forget (compileCondition q C)"
  "\<forall>q j. forget (compileItems p i cs) = forget (compileItems q j cs)"
  "\<forall>q. forget (compileKeys p kvs acc) = forget (compileKeys q kvs acc)"
  "\<forall>q j. forget (compileAnd p i cs acc) = forget (compileAnd q j cs acc)"
proof (induction p C and p i cs and p kvs acc and p i cs acc
    rule: compileCondition_compileItems_compileKeys_compileAnd.induct)
  case (1 path condition)
  show ?case
  proof
    fix q
    show "forget (compileCondition path condition) = forget (compileCondition q condition)"
    proof (cases condition)
      case (RArray xs)
      have a: "forget (compileItems path 0 xs) = forget (compileItems q 0 xs)"
        using 1(1) [OF _ _ RArray] RArray by auto
      have "forget (case compileItems path 0 xs of Inl e \<Rightarrow> Inl e
                    | Inr items \<Rightarrow> Inr (combineConditionsOr items)) =
            forget (case compileItems q 0 xs of Inl e \<Rightarrow> Inl e
                    | Inr items \<Rightarrow> Inr (combineConditionsOr items))"
        by (rule forget_case [OF a]) simp
      then show ?thesis
        unfolding RArray compileCondition_unfold .
    next
      case (RObject kvs)
      have a: "forget (compileKeys path kvs []) = forget (compileKeys q kvs [])"
        using 1(2) [OF _ _ RObject] RObject by auto
      have "forget (case compileKeys path kvs [] of Inl e \<Rightarrow> Inl e
                    | Inr conditions \<Rightarrow>
                        if length conditions = 0 then
                          Inl (error path (RObject kvs)
                                ''Expected condition, but got empty thing'')
                        else Inr (combineConditionsAnd conditions)) =
            forget (case compileKeys q kvs [] of Inl e \<Rightarrow> Inl e
                    | Inr conditions \<Rightarrow>
                        if length conditions = 0 then
                          Inl (error q (RObject kvs)
                                ''Expected condition, but got empty thing'')
                        else Inr (combineConditionsAnd conditions))"
        by (rule forget_case [OF a]) simp
      then show ?thesis
        unfolding RObject compileCondition_unfold .
    next
      case (RFunction f)
      then show ?thesis by (cases "f (JStr [])") simp_all
    qed simp_all
  qed
next
  case (2 path i)
  show ?case by simp
next
  case (3 path i c cs)
  show ?case
  proof (intro allI)
    fix q j
    have a: "forget (compileCondition (path @ ''['' @ string_of_nat i @ '']'') c) =
          forget (compileCondition (q @ ''['' @ string_of_nat j @ '']'') c)"
      using 3(1) by blast
    show "forget (compileItems path i (c # cs)) = forget (compileItems q j (c # cs))"
      unfolding compileItems.simps
    proof (rule forget_case [OF a])
      fix x
      assume "compileCondition (path @ ''['' @ string_of_nat i @ '']'') c = Inr x"
      then have "forget (compileItems path (i + 1) cs) = forget (compileItems q (j + 1) cs)"
        using 3(2) by blast
      then show "forget (case compileItems path (i + 1) cs of Inl e \<Rightarrow> Inl e
                         | Inr items \<Rightarrow> Inr (x # items)) =
                 forget (case compileItems q (j + 1) cs of Inl e \<Rightarrow> Inl e
                         | Inr items \<Rightarrow> Inr (x # items))"
        by (rule forget_case) simp
    qed
  qed
next
  case (4 path conditions)
  show ?case by simp
next
  case (5 path key v kvs conditions)
  show ?case
  proof
    fix q
    consider (skip) "key \<in> {''or'', ''and'', ''not''}" "\<not> truthyRaw v"
      | (or_array) xs where "key = ''or''" "truthyRaw v" "v = RArray xs"
      | (or_other) "key = ''or''" "truthyRaw v" "\<not> isArray v"
      | (and_array) xs where "key = ''and''" "truthyRaw v" "v = RArray xs"
      | (and_other) "key = ''and''" "truthyRaw v" "\<not> isArray v"
      | (not) "key = ''not''" "truthyRaw v"
      | (unknown) "key \<notin> {''or'', ''and'', ''not''}"
      by (cases v) auto
    then show "forget (compileKeys path ((key, v) # kvs) conditions) =
               forget (compileKeys q ((key, v) # kvs) conditions)"
    proof cases
      case skip
      then have "forget (compileKeys path kvs conditions) = forget (compileKeys q kvs conditions)"
        using 5(3,6,9) by auto
      then show ?thesis using skip by auto
    next
      case or_array
      have a: "forget (compileCondition (path @ ''.or'') (RArray xs)) =
               forget (compileCondition (q @ ''.or'') (RArray xs))"
        using 5(1) or_array by blast
      have "forget (case compileCondition (path @ ''.or'') (RArray xs) of Inl e \<Rightarrow> Inl e
                    | Inr c \<Rightarrow> compileKeys path kvs (conditions @ [c])) =
            forget (case compileCondition (q @ ''.or'') (RArray xs) of Inl e \<Rightarrow> Inl e
                    | Inr c \<Rightarrow> compileKeys q kvs (conditions @ [c]))"
      proof (rule forget_case [OF a])
        fix x
        assume "compileCondition (path @ ''.or'') (RArray xs) = Inr x"
        then show "forget (compileKeys path kvs (conditions @ [x])) =
                   forget (compileKeys q kvs (conditions @ [x]))"
          using 5(2) or_array by blast
      qed
      then show ?thesis
        using or_array by (simp del: compileCondition_unfold)
    next
      case or_other
      then show ?thesis by (cases v) simp_all
    next
      case and_array
      have a: "forget (compileAnd path 0 xs conditions) = forget (compileAnd q 0 xs conditions)"
        using 5(4) and_array by blast
      have "forget (case compileAnd path 0 xs conditions of Inl e \<Rightarrow> Inl e
                    | Inr c \<Rightarrow> compileKeys path kvs c) =
            forget (case compileAnd q 0 xs conditions of Inl e \<Rightarrow> Inl e
                    | Inr c \<Rightarrow> compileKeys q kvs c)"
      proof (rule forget_case [OF a])
        fix x
        assume "compileAnd path 0 xs conditions = Inr x"
        then show "forget (compileKeys path kvs x) = forget (compileKeys q kvs x)"
          using 5(5) and_array by blast
      qed
      then show ?thesis
        using and_array by simp
    next
      case and_other
      then show ?thesis by (cases v) simp_all
    next
      case not
      have a: "forget (compileCondition (path @ ''.not'') v) =
               forget (compileCondition (q @ ''.not'') v)"
        using 5(7) not by blast
      let ?neg = "\<lambda>matcher. \<lparr>matchWhenEmpty = \<not> matchWhenEmpty matcher,
                     fn = (\<lambda>v. case fn matcher v of
                                  Inl e \<Rightarrow> Inl e
                                | Inr b \<Rightarrow> Inr (\<not> b))\<rparr>"
      have "forget (case compileCondition (path @ ''.not'') v of Inl e \<Rightarrow> Inl e
                    | Inr matcher \<Rightarrow> compileKeys path kvs (conditions @ [?neg matcher])) =
            forget (case compileCondition (q @ ''.not'') v of Inl e \<Rightarrow> Inl e
                    | Inr matcher \<Rightarrow> compileKeys q kvs (conditions @ [?neg matcher]))"
      proof (rule forget_case [OF a])
        fix x
        assume "compileCondition (path @ ''.not'') v = Inr x"
        then show "forget (compileKeys path kvs (conditions @ [?neg x])) =
                   forget (compileKeys q kvs (conditions @ [?neg x]))"
          using 5(8) not by blast
      qed
      then show ?thesis
        using not by simp
    next
      case unknown
      then show ?thesis by simp
    qed
  qed
next
  case (6 path i conditions)
  show ?case by simp
next
  case (7 path i item cs conditions)
  show ?case
  proof (intro allI)
    fix q j
    have a: "forget (compileCondition (path @ ''.and['' @ string_of_nat i @ '']'') item) =
          forget (compileCondition (q @ ''.and['' @ string_of_nat j @ '']'') item)"
      using 7(1) by blast
    show "forget (compileAnd path i (item # cs) conditions) =
          forget (compileAnd q j (item # cs) conditions)"
      unfolding compileAnd.simps
    proof (rule forget_case [OF a])
      fix x
      assume "compileCondition (path @ ''.and['' @ string_of_nat i @ '']'') item = Inr x"
      then show "forget (compileAnd path (i + 1) cs (conditions @ [x])) =
          forget (compileAnd q (j + 1) cs (conditions @ [x]))"
        using 7(2) by blast
    qed
  qed
qed

section \<open>Lemmas about the rule compiler\<close>


lemma definedKeys_getRaw:
  "\<not> isUndefined (getRaw rule key) \<Longrightarrow>
   \<exists>keys. definedKeys rule = Inr keys \<and> List.member keys key"
proof (cases rule)
  case (RObject kvs)
  assume d: "\<not> isUndefined (getRaw rule key)"
  then obtain v where v: "map_of kvs key = Some v" "\<not> isUndefined v"
    using RObject by (auto split: option.splits)
  then have "(key, v) \<in> set kvs" by (simp add: map_of_SomeD)
  then have "key \<in> fst ` {x \<in> set kvs. \<not> isUndefined (snd x)}"
    using v(2) by force
  then show ?thesis
    using RObject by (simp add: case_prod_unfold)
qed simp_all

lemma isArray_case:
  "\<not> isArray v \<Longrightarrow> (case v of RArray xs \<Rightarrow> f xs | _ \<Rightarrow> g) = g"
  by (cases v) simp_all

section \<open>The executor: conditions, groups and the result\<close>

text \<open>
  Claim C1. The conditions of a rule are evaluated in the order of their declaration. When all
  conditions before \<open>c\<close> pass and \<open>c\<close> fails (its value is defined and its function returns
  false, or its value is absent and \<^verbatim>\<open>matchWhenEmpty\<close> is false), \<^verbatim>\<open>execRule\<close> returns
  false and the list of effects as it received it, whatever the later conditions, the effects
  and the nested groups of the rule are. When the value of \<open>c\<close> is absent and
  \<^verbatim>\<open>matchWhenEmpty\<close> is true, the evaluation goes on with the condition after \<open>c\<close>.
\<close>

theorem execRule_stops_at_first_failing_condition:
  assumes "list_all (conditionPasses data) pre"
  shows "(conditionFails data c \<longrightarrow>
            execRule data (CompiledRule (pre @ c # post) effectItems rules oneOf) effects
              = Inr (False, effects))
       \<and> (resolve data (property c) = JUndefined \<and> matchWhenEmpty c \<longrightarrow>
            execConditions data (pre @ c # post) = execConditions data post)"
proof (intro conjI impI)
  assume "conditionFails data c"
  with assms have "execConditions data (pre @ c # post) = Inr False"
    by (rule execConditions_fails)
  then show "execRule data (CompiledRule (pre @ c # post) effectItems rules oneOf) effects
      = Inr (False, effects)"
    by simp
next
  assume a: "resolve data (property c) = JUndefined \<and> matchWhenEmpty c"
  have "execConditions data (pre @ c # post) = execConditions data (c # post)"
    using assms by (simp add: execConditions_append execConditions_True_iff)
  also have "\<dots> = execConditions data post"
    using a by simp
  finally show "execConditions data (pre @ c # post) = execConditions data post" .
qed

text \<open>On the record \<^verbatim>\<open>{resource: "x/a.js"}\<close>: after a passing condition, a condition on
  the path \<^verbatim>\<open>["resource"]\<close> whose function returns false makes the rule fail with the
  effects unchanged, although the next condition and an effect function would throw; a
  condition on the absent \<^verbatim>\<open>issuer\<close> with \<^verbatim>\<open>matchWhenEmpty\<close> true is passed over.\<close>

theorem execRule_stops_at_first_failing_condition_witness:
  "list_all (conditionPasses (resourceRecord ''x/a.js'')) [resourceTest ''x'']
   \<and> conditionFails (resourceRecord ''x/a.js'')
        \<lparr>matchWhenEmpty = True, fn = (\<lambda>v. Inr False), property = Multi [''resource'']\<rparr>
   \<and> execRule (resourceRecord ''x/a.js'')
        (CompiledRule
           ([resourceTest ''x'']
            @ \<lparr>matchWhenEmpty = True, fn = (\<lambda>v. Inr False), property = Multi [''resource'']\<rparr>
            # [\<lparr>matchWhenEmpty = True, fn = (\<lambda>v. Inl (Thrown JNull)),
                 property = Single ''resource''\<rparr>])
           [useEffect ''A'', Generated (\<lambda>d. Inl (Thrown JNull))]
           (Some [CompiledRule [] [useEffect ''B''] None None])
           None)
        [Effect ''use'' (JStr ''before'')]
      = Inr (False, [Effect ''use'' (JStr ''before'')])
   \<and> resolve (resourceRecord ''x/a.js'') (Single ''issuer'') = JUndefined
   \<and> execConditions (resourceRecord ''x/a.js'')
        ([resourceTest ''x'']
         @ \<lparr>matchWhenEmpty = True, fn = (\<lambda>v. Inr False), property = Single ''issuer''\<rparr>
         # [resourceTest ''y''])
      = execConditions (resourceRecord ''x/a.js'') [resourceTest ''y'']"
  using
    execRule_stops_at_first_failing_condition
      [where data = "resourceRecord ''x/a.js''" and pre = "[resourceTest ''x'']"
         and c = "\<lparr>matchWhenEmpty = True, fn = (\<lambda>v. Inr False),
                   property = Multi [''resource'']\<rparr>"
         and post = "[\<lparr>matchWhenEmpty = True, fn = (\<lambda>v. Inl (Thrown JNull)),
                       property = Single ''resource''\<rparr>]"
         and effectItems = "[useEffect ''A'', Generated (\<lambda>d. Inl (Thrown JNull))]"
         and rules = "Some [CompiledRule [] [useEffect ''B''] None None]"
         and oneOf = None
         and effects = "[Effect ''use'' (JStr ''before'')]"]
    execRule_stops_at_first_failing_condition
      [where data = "resourceRecord ''x/a.js''" and pre = "[resourceTest ''x'']"
         and c = "\<lparr>matchWhenEmpty = True, fn = (\<lambda>v. Inr False),
                   property = Single ''issuer''\<rparr>"
         and post = "[resourceTest ''y'']"]
  by (simp add: conditionPasses_def conditionFails_def resolve_def startsWith_def
      resourceTest_def resourceRecord_def)

text \<open>
  Claim C2. The children of a \<^verbatim>\<open>oneOf\<close> group run in the order of their declaration, after
  the conditions, the effects and the \<^verbatim>\<open>rules\<close> group of the rule (which leave the effects
  \<open>effectsRules\<close>). When the children \<open>pre\<close> return false and the next child \<open>c\<close> returns true
  with the effects \<open>effectsChild\<close>, the rule returns \<open>effectsChild\<close>, whatever the later children
  \<open>post\<close> are: they are not evaluated. When all children return false, nothing is added to
  \<open>effectsRules\<close>.
\<close>

theorem oneOf_stops_after_first_match:
  assumes "execConditions data conditions = Inr True"
      and "pushEffects data effectItems effects = Inr effectsOwn"
      and "(case rules of None \<Rightarrow> Inr effectsOwn
            | Some childRules \<Rightarrow> execRules data childRules effectsOwn) = Inr effectsRules"
      and "\<forall>r\<in>set pre. \<exists>e. execRule data r effectsRules = Inr (False, e)"
  shows "(execRule data c effectsRules = Inr (True, effectsChild) \<longrightarrow>
            execRule data (CompiledRule conditions effectItems rules (Some (pre @ c # post))) effects
              = Inr (True, effectsChild))
       \<and> execRule data (CompiledRule conditions effectItems rules (Some pre)) effects
              = Inr (True, effectsRules)"
proof -
  have a: "execOneOf data (pre @ c # post) effectsRules = execOneOf data (c # post) effectsRules"
    using assms(4) by (rule execOneOf_skip)
  have b: "execOneOf data (pre @ []) effectsRules = execOneOf data [] effectsRules"
    using assms(4) by (rule execOneOf_skip)
  show ?thesis
    using assms(1-3) a b by simp
qed

text \<open>The rule \<^verbatim>\<open>{oneOf: [{test: "x", use: "A"}, {use: "B"}, ...]}\<close>, its third child a
  rule that throws when it is evaluated: on \<^verbatim>\<open>resource: "y"\<close> the first child fails and the
  second gives \<^verbatim>\<open>[B]\<close>; on \<^verbatim>\<open>resource: "x"\<close> the first child gives \<^verbatim>\<open>[A]\<close> and the
  second is not evaluated.\<close>

theorem oneOf_stops_after_first_match_witness:
  "execRule (resourceRecord ''y'') (CompiledRule [resourceTest ''x''] [useEffect ''A''] None None) []
     = Inr (False, [])
   \<and> execRule (resourceRecord ''y'') (CompiledRule [] [useEffect ''B''] None None) []
     = Inr (True, [Effect ''use'' (JStr ''B'')])
   \<and> execRule (resourceRecord ''y'')
       (CompiledRule [] [] None
          (Some ([CompiledRule [resourceTest ''x''] [useEffect ''A''] None None]
                 @ CompiledRule [] [useEffect ''B''] None None # [throwingRule]))) []
     = Inr (True, [Effect ''use'' (JStr ''B'')])
   \<and> execRule (resourceRecord ''y'')
       (CompiledRule [] [] None
          (Some [CompiledRule [resourceTest ''x''] [useEffect ''A''] None None])) []
     = Inr (True, [])
   \<and> execRule (resourceRecord ''x'')
       (CompiledRule [] [] None
          (Some ([] @ CompiledRule [resourceTest ''x''] [useEffect ''A''] None None
                 # [CompiledRule [] [useEffect ''B''] None None, throwingRule]))) []
     = Inr (True, [Effect ''use'' (JStr ''A'')])"
  using
    oneOf_stops_after_first_match
      [where data = "resourceRecord ''y''" and conditions = "[]" and effectItems = "[]"
         and effects = "[]" and effectsOwn = "[]" and rules = None and effectsRules = "[]"
         and pre = "[CompiledRule [resourceTest ''x''] [useEffect ''A''] None None]"
         and c = "CompiledRule [] [useEffect ''B''] None None"
         and effectsChild = "[Effect ''use'' (JStr ''B'')]" and post = "[throwingRule]"]
    oneOf_stops_after_first_match
      [where data = "resourceRecord ''x''" and conditions = "[]" and effectItems = "[]"
         and effects = "[]" and effectsOwn = "[]" and rules = None and effectsRules = "[]"
         and pre = "[]"
         and c = "CompiledRule [resourceTest ''x''] [useEffect ''A''] None None"
         and effectsChild = "[Effect ''use'' (JStr ''A'')]"
         and post = "[CompiledRule [] [useEffect ''B''] None None, throwingRule]"]
  by (simp add: resolve_def startsWith_def resourceTest_def resourceRecord_def useEffect_def)

text \<open>
  Claim C3. The boolean that \<^verbatim>\<open>execRule\<close> returns says whether the conditions of the rule
  itself all passed: whenever \<^verbatim>\<open>execRule\<close> returns, its boolean is that, whatever the effects
  and the nested groups of the rule are and whether their rules matched. And \<^verbatim>\<open>execRule\<close>
  does return, with that boolean, when the functions of the rule return on the record.
\<close>

theorem execRule_returns_whether_own_conditions_passed:
  "(execRule data (CompiledRule conditions effectItems rules oneOf) effects = Inr (matched, out)
      \<longrightarrow> matched = list_all (conditionPasses data) conditions)
   \<and> (callbacksReturn data (CompiledRule conditions effectItems rules oneOf) \<longrightarrow>
        (\<exists>out. execRule data (CompiledRule conditions effectItems rules oneOf) effects
           = Inr (list_all (conditionPasses data) conditions, out)))"
proof (intro conjI impI)
  assume "execRule data (CompiledRule conditions effectItems rules oneOf) effects = Inr (matched, out)"
  then have "execConditions data conditions = Inr matched"
    by (rule execRule_result_conditions)
  then show "matched = list_all (conditionPasses data) conditions"
    using execConditions_True_iff [of data conditions] by (cases matched) auto
next
  assume "callbacksReturn data (CompiledRule conditions effectItems rules oneOf)"
  then obtain b out where r: "execRule data (CompiledRule conditions effectItems rules oneOf) effects = Inr (b, out)"
    using execRule_returns by blast
  then have "execConditions data conditions = Inr b"
    by (rule execRule_result_conditions)
  then have "b = list_all (conditionPasses data) conditions"
    using execConditions_True_iff [of data conditions] by (cases b) auto
  then show "\<exists>out. execRule data (CompiledRule conditions effectItems rules oneOf) effects
           = Inr (list_all (conditionPasses data) conditions, out)"
    using r by blast
qed

text \<open>On \<^verbatim>\<open>resource: "x"\<close>, a rule with the test \<^verbatim>\<open>"x"\<close> returns true although the only
  rule of its \<^verbatim>\<open>rules\<close> group and the only rule of its \<^verbatim>\<open>oneOf\<close> group fail.\<close>

theorem execRule_returns_whether_own_conditions_passed_witness:
  "execRule (resourceRecord ''x'')
     (CompiledRule [resourceTest ''x''] [useEffect ''A'']
        (Some [CompiledRule [resourceTest ''y''] [useEffect ''B''] None None])
        (Some [CompiledRule [resourceTest ''z''] [useEffect ''C''] None None])) []
     = Inr (True, [Effect ''use'' (JStr ''A'')])
   \<and> True = list_all (conditionPasses (resourceRecord ''x'')) [resourceTest ''x'']
   \<and> callbacksReturn (resourceRecord ''x'')
       (CompiledRule [resourceTest ''x''] [useEffect ''A'']
          (Some [CompiledRule [resourceTest ''y''] [useEffect ''B''] None None])
          (Some [CompiledRule [resourceTest ''z''] [useEffect ''C''] None None]))
   \<and> execRule (resourceRecord ''x'')
       (CompiledRule [resourceTest ''y''] [useEffect ''B''] None None) []
     = Inr (False, [])"
  using
    execRule_returns_whether_own_conditions_passed
      [where data = "resourceRecord ''x''" and conditions = "[resourceTest ''x'']"
         and effectItems = "[useEffect ''A'']"
         and rules = "Some [CompiledRule [resourceTest ''y''] [useEffect ''B''] None None]"
         and oneOf = "Some [CompiledRule [resourceTest ''z''] [useEffect ''C''] None None]"
         and effects = "[]" and matched = True and out = "[Effect ''use'' (JStr ''A'')]"]
  by (simp add: conditionPasses_def resolve_def startsWith_def resourceTest_def
      resourceRecord_def useEffect_def)

text \<open>
  Claim C4. \<^verbatim>\<open>exec\<close> runs \<^verbatim>\<open>execRule\<close> on every top-level rule, in the order of the
  declaration, on one sequence of effects: it returns \<open>out\<close> exactly when every rule returns
  (true or false) and \<open>out\<close> is the concatenation, in order, of what each rule appends; and it
  returns when the functions of the rules return. The same holds for the children of a
  \<^verbatim>\<open>rules\<close> group: every child returns (true or false), what they append comes in order
  after the effects of the rule itself, and the \<^verbatim>\<open>oneOf\<close> group, if there is one, runs
  on the result. By \<open>execRule_acc\<close> what a rule appends does not depend on the effects
  before it.
\<close>

theorem exec_runs_every_rule_in_order:
  "(exec rules data = Inr out \<longleftrightarrow>
      (\<exists>outs. list_all2 (\<lambda>rule appended. \<exists>matched. execRule data rule [] = Inr (matched, appended))
                 rules outs \<and> out = concat outs))
   \<and> (list_all (callbacksReturn data) rules \<longrightarrow> (\<exists>out. exec rules data = Inr out))
   \<and> (execConditions data conditions = Inr True \<and>
       pushEffects data effectItems effects = Inr effectsOwn \<longrightarrow>
        (execRule data (CompiledRule conditions effectItems (Some childRules) oneOf) effects
           = Inr (True, out) \<longleftrightarrow>
         (\<exists>outs. list_all2 (\<lambda>rule appended. \<exists>matched. execRule data rule [] = Inr (matched, appended))
                   childRules outs \<and>
                 (case oneOf of None \<Rightarrow> Inr (effectsOwn @ concat outs)
                  | Some rs \<Rightarrow> execOneOf data rs (effectsOwn @ concat outs)) = Inr out)))"
proof (intro conjI impI)
  show "exec rules data = Inr out \<longleftrightarrow>
      (\<exists>outs. list_all2 (\<lambda>rule appended. \<exists>matched. execRule data rule [] = Inr (matched, appended))
                 rules outs \<and> out = concat outs)"
    unfolding exec_def using execRules_Inr_iff [of data rules "[]" out] by simp
next
  assume "list_all (callbacksReturn data) rules"
  then show "\<exists>out. exec rules data = Inr out" by (rule exec_returns)
next
  assume "execConditions data conditions = Inr True \<and>
       pushEffects data effectItems effects = Inr effectsOwn"
  then show "execRule data (CompiledRule conditions effectItems (Some childRules) oneOf) effects
           = Inr (True, out) \<longleftrightarrow>
         (\<exists>outs. list_all2 (\<lambda>rule appended. \<exists>matched. execRule data rule [] = Inr (matched, appended))
                   childRules outs \<and>
                 (case oneOf of None \<Rightarrow> Inr (effectsOwn @ concat outs)
                  | Some rs \<Rightarrow> execOneOf data rs (effectsOwn @ concat outs)) = Inr out)"
    using execRule_rules_group by blast
qed

text \<open>The rules \<^verbatim>\<open>[{test: "a", use: "X"}, {test: "b", use: "Y"}, {use: "Z"}]\<close> on
  \<^verbatim>\<open>resource: "b/f"\<close> give \<^verbatim>\<open>[Y, Z]\<close>: the first rule fails and the others still run. The
  rule \<^verbatim>\<open>{rules: [{test: "x", use: "A"}, {use: "B"}]}\<close> on \<^verbatim>\<open>resource: "x"\<close> gives
  \<^verbatim>\<open>[A, B]\<close>, and on \<^verbatim>\<open>resource: "y"\<close> it gives \<^verbatim>\<open>[B]\<close>.\<close>

theorem exec_runs_every_rule_in_order_witness:
  "list_all (callbacksReturn (resourceRecord ''b/f''))
     [CompiledRule [resourceTest ''a''] [useEffect ''X''] None None,
      CompiledRule [resourceTest ''b''] [useEffect ''Y''] None None,
      CompiledRule [] [useEffect ''Z''] None None]
   \<and> exec [CompiledRule [resourceTest ''a''] [useEffect ''X''] None None,
            CompiledRule [resourceTest ''b''] [useEffect ''Y''] None None,
            CompiledRule [] [useEffect ''Z''] None None] (resourceRecord ''b/f'')
       = Inr [Effect ''use'' (JStr ''Y''), Effect ''use'' (JStr ''Z'')]
   \<and> execConditions (resourceRecord ''x'') [] = Inr True
   \<and> pushEffects (resourceRecord ''x'') [] [] = Inr []
   \<and> execRule (resourceRecord ''x'')
        (CompiledRule [] []
           (Some [CompiledRule [resourceTest ''x''] [useEffect ''A''] None None,
                  CompiledRule [] [useEffect ''B''] None None]) None) []
       = Inr (True, [Effect ''use'' (JStr ''A''), Effect ''use'' (JStr ''B'')])
   \<and> execRule (resourceRecord ''y'')
        (CompiledRule [] []
           (Some [CompiledRule [resourceTest ''x''] [useEffect ''A''] None None,
                  CompiledRule [] [useEffect ''B''] None None]) None) []
       = Inr (True, [Effect ''use'' (JStr ''B'')])"
  using
    exec_runs_every_rule_in_order
      [where data = "resourceRecord ''b/f''"
         and rules = "[CompiledRule [resourceTest ''a''] [useEffect ''X''] None None,
                       CompiledRule [resourceTest ''b''] [useEffect ''Y''] None None,
                       CompiledRule [] [useEffect ''Z''] None None]"
         and out = "[Effect ''use'' (JStr ''Y''), Effect ''use'' (JStr ''Z'')]"
         and conditions = "[]" and effectItems = "[]" and effects = "[]" and effectsOwn = "[]"
         and childRules = "[]" and oneOf = None]
    exec_runs_every_rule_in_order
      [where data = "resourceRecord ''x''" and rules = "[]" and conditions = "[]"
         and effectItems = "[]" and effects = "[]" and effectsOwn = "[]"
         and childRules = "[CompiledRule [resourceTest ''x''] [useEffect ''A''] None None,
                            CompiledRule [] [useEffect ''B''] None None]"
         and out = "[Effect ''use'' (JStr ''A''), Effect ''use'' (JStr ''B'')]"
         and oneOf = None]
  by (simp add: exec_def resolve_def startsWith_def resourceTest_def resourceRecord_def
      useEffect_def)

section \<open>The condition compiler: strings, OR, NOT and lists of one condition\<close>

text \<open>
  Claim C5. A non-empty string \<open>S\<close> compiles, at every path, to a condition whose function
  returns true on a value \<open>V\<close> exactly when \<open>V\<close> is a string that starts with \<open>S\<close> (and
  never throws), and whose \<^verbatim>\<open>matchWhenEmpty\<close> is \<^verbatim>\<open>S.length === 0\<close>, that is false.
\<close>

theorem compileCondition_nonempty_string:
  "S \<noteq> [] \<Longrightarrow>
   \<exists>c. compileCondition path (RStr S) = Inr c \<and>
       matchWhenEmpty c = (length S = 0) \<and> \<not> matchWhenEmpty c \<and>
       (\<forall>V. fn c V = Inr (\<exists>s. V = JStr s \<and> prefix S s))"
proof -
  assume S: "S \<noteq> []"
  let ?c = "\<lparr>matchWhenEmpty = (length S = 0),
             fn = (\<lambda>str. Inr (case str of JStr x \<Rightarrow> startsWith x S | _ \<Rightarrow> False))\<rparr>"
  have "compileCondition path (RStr S) = Inr ?c"
    using S by simp
  moreover have "\<forall>V. fn ?c V = Inr (\<exists>s. V = JStr s \<and> prefix S s)"
  proof
    fix V
    show "fn ?c V = Inr (\<exists>s. V = JStr s \<and> prefix S s)"
      by (cases V) (simp_all add: startsWith_prefix)
  qed
  ultimately show ?thesis using S by auto
qed

text \<open>The string \<^verbatim>\<open>"ab"\<close>: its condition holds on \<^verbatim>\<open>"abc"\<close>, and not on \<^verbatim>\<open>"b"\<close>, on the
  empty string, on the number 1 or on \<^verbatim>\<open>null\<close>.\<close>

theorem compileCondition_nonempty_string_witness:
  "''ab'' \<noteq> []
   \<and> map_sum id
        (\<lambda>c. (matchWhenEmpty c, fn c (JStr ''abc''), fn c (JStr ''b''), fn c (JStr []),
              fn c (JNum 1), fn c JNull))
        (compileCondition ''ruleSet[0].resource'' (RStr ''ab''))
       = Inr (False, Inr True, Inr False, Inr False, Inr False, Inr False)"
  using compileCondition_nonempty_string [where S = "''ab''" and path = "''ruleSet[0].resource''"]
  by (auto simp: startsWith_def)

text \<open>
  Claim C6. For a list of more than one condition, \<^verbatim>\<open>matchWhenEmpty\<close> of the OR-combination
  is true exactly when it is true for one of them. Its function returns true on \<open>V\<close> only if
  the function of one of them does, and returns false exactly when all of them return false;
  when none of the functions throws on \<open>V\<close> (the functions are boolean functions, as the data
  model has them), it returns whether one of them returns true. A function that throws before
  any has returned true makes the combination throw.
\<close>

theorem combineConditionsOr_of_several:
  assumes "length cs > 1"
  shows "(matchWhenEmpty (combineConditionsOr cs) \<longleftrightarrow> (\<exists>c\<in>set cs. matchWhenEmpty c))
       \<and> (fn (combineConditionsOr cs) V = Inr True \<longrightarrow> (\<exists>c\<in>set cs. fn c V = Inr True))
       \<and> (fn (combineConditionsOr cs) V = Inr False \<longleftrightarrow> (\<forall>c\<in>set cs. fn c V = Inr False))
       \<and> (list_all (\<lambda>c. \<not> isl (fn c V)) cs \<longrightarrow>
            fn (combineConditionsOr cs) V = Inr (\<exists>c\<in>set cs. fn c V = Inr True))"
proof -
  have d: "combineConditionsOr cs =
      \<lparr>matchWhenEmpty = list_ex matchWhenEmpty cs, fn = (\<lambda>v. some (\<lambda>c. fn c v) cs)\<rparr>"
    using assms by (simp add: combineConditionsOr_def)
  show ?thesis
    unfolding d
    using some_True_imp [of "\<lambda>c. fn c V" cs] some_False_iff [of "\<lambda>c. fn c V" cs]
      some_returns [of cs "\<lambda>c. fn c V"]
    by (simp add: list_ex_iff list_all_iff)
qed

text \<open>Two conditions, "is \<^verbatim>\<open>"a"\<close>" and "is \<^verbatim>\<open>"b"\<close>", the second with \<^verbatim>\<open>matchWhenEmpty\<close>
  true: their OR holds on \<^verbatim>\<open>"b"\<close>, not on \<^verbatim>\<open>"c"\<close>, and its \<^verbatim>\<open>matchWhenEmpty\<close> is true.\<close>

theorem combineConditionsOr_of_several_witness:
  "length [\<lparr>matchWhenEmpty = False, fn = (\<lambda>v. Inr (v = JStr ''a''))\<rparr>,
           \<lparr>matchWhenEmpty = True, fn = (\<lambda>v. Inr (v = JStr ''b''))\<rparr>] > 1
   \<and> list_all (\<lambda>c. \<not> isl (fn c (JStr ''b'')))
        [\<lparr>matchWhenEmpty = False, fn = (\<lambda>v. Inr (v = JStr ''a''))\<rparr>,
         \<lparr>matchWhenEmpty = True, fn = (\<lambda>v. Inr (v = JStr ''b''))\<rparr>]
   \<and> fn (combineConditionsOr
           [\<lparr>matchWhenEmpty = False, fn = (\<lambda>v. Inr (v = JStr ''a''))\<rparr>,
            \<lparr>matchWhenEmpty = True, fn = (\<lambda>v. Inr (v = JStr ''b''))\<rparr>]) (JStr ''b'')
       = Inr True
   \<and> fn (combineConditionsOr
           [\<lparr>matchWhenEmpty = False, fn = (\<lambda>v. Inr (v = JStr ''a''))\<rparr>,
            \<lparr>matchWhenEmpty = True, fn = (\<lambda>v. Inr (v = JStr ''b''))\<rparr>]) (JStr ''c'')
       = Inr False
   \<and> matchWhenEmpty (combineConditionsOr
           [\<lparr>matchWhenEmpty = False, fn = (\<lambda>v. Inr (v = JStr ''a''))\<rparr>,
            \<lparr>matchWhenEmpty = True, fn = (\<lambda>v. Inr (v = JStr ''b''))\<rparr>])"
  using
    combineConditionsOr_of_several
      [where cs = "[\<lparr>matchWhenEmpty = False, fn = (\<lambda>v. Inr (v = JStr ''a''))\<rparr>,
                    \<lparr>matchWhenEmpty = True, fn = (\<lambda>v. Inr (v = JStr ''b''))\<rparr>]"
         and V = "JStr ''b''"]
    combineConditionsOr_of_several
      [where cs = "[\<lparr>matchWhenEmpty = False, fn = (\<lambda>v. Inr (v = JStr ''a''))\<rparr>,
                    \<lparr>matchWhenEmpty = True, fn = (\<lambda>v. Inr (v = JStr ''b''))\<rparr>]"
         and V = "JStr ''c''"]
  by simp

text \<open>
  Claim C7, as the source has it. The key \<^verbatim>\<open>not\<close> is read only when its value is truthy
  (line 453). The empty string is a condition that compiles (line 366), and it is falsy: so
  \<^verbatim>\<open>{not: ""}\<close> has no condition at all and the compilation fails at line 470.
\<close>

theorem not_of_empty_string_counterexample:
  "map_sum id matchWhenEmpty (compileCondition ''ruleSet[0].resource.not'' (RStr [])) = Inr True
   \<and> compileCondition ''ruleSet[0].resource'' (RObject [(''not'', RStr [])])
       = Inl (CompileError ''Expected condition, but got empty thing'' ''ruleSet[0].resource'')"
  by (simp add: error_def)

text \<open>
  Claim C7, amended. For every condition \<open>C\<close> other than the empty string that compiles (at
  any path) to \<open>m\<close>, the object \<^verbatim>\<open>{not: C}\<close> compiles (at any path) to a condition whose
  \<^verbatim>\<open>matchWhenEmpty\<close> is the negation of that of \<open>m\<close>, and whose function returns, on every
  value, the negation of what the function of \<open>m\<close> returns (and throws when that throws): it
  holds exactly when that of \<open>m\<close> returns false.
\<close>

theorem not_negates_condition:
  assumes "compileCondition q C = Inr m" and "\<not> isEmptyString C"
  shows "\<exists>c. compileCondition path (RObject [(''not'', C)]) = Inr c \<and>
           matchWhenEmpty c = (\<not> matchWhenEmpty m) \<and>
           (\<forall>V. fn c V = (case fn m V of Inl e \<Rightarrow> Inl e | Inr b \<Rightarrow> Inr (\<not> b)) \<and>
                (fn c V = Inr True \<longleftrightarrow> fn m V = Inr False) \<and>
                (fn c V = Inr False \<longleftrightarrow> fn m V = Inr True))"
proof -
  have t: "truthyRaw C"
    using assms by (cases C) (simp_all split: if_splits)
  have "forget (compileCondition q C) = forget (compileCondition (path @ ''.not'') C)"
    using path_independent(1) by blast
  then have n: "compileCondition (path @ ''.not'') C = Inr m"
    using assms(1) by (rule forget_eq_Inr)
  let ?c = "\<lparr>matchWhenEmpty = \<not> matchWhenEmpty m,
             fn = (\<lambda>v. case fn m v of Inl e \<Rightarrow> Inl e | Inr b \<Rightarrow> Inr (\<not> b))\<rparr>"
  have "compileCondition path (RObject [(''not'', C)]) = Inr ?c"
    using n t by (simp add: combineConditionsAnd_def)
  moreover have "\<forall>V. fn ?c V = (case fn m V of Inl e \<Rightarrow> Inl e | Inr b \<Rightarrow> Inr (\<not> b)) \<and>
                (fn ?c V = Inr True \<longleftrightarrow> fn m V = Inr False) \<and>
                (fn ?c V = Inr False \<longleftrightarrow> fn m V = Inr True)"
    by (auto split: sum.splits)
  ultimately show ?thesis by auto
qed

text \<open>The string \<^verbatim>\<open>"a"\<close>: \<^verbatim>\<open>{not: "a"}\<close> holds on \<^verbatim>\<open>"b/x"\<close> and on the number 1, not on
  \<^verbatim>\<open>"a/x"\<close>, and its \<^verbatim>\<open>matchWhenEmpty\<close> is true.\<close>

theorem not_negates_condition_witness:
  "compileCondition ''q'' (RStr ''a'')
     = Inr \<lparr>matchWhenEmpty = False,
            fn = (\<lambda>str. Inr (case str of JStr x \<Rightarrow> startsWith x ''a'' | _ \<Rightarrow> False))\<rparr>
   \<and> \<not> isEmptyString (RStr ''a'')
   \<and> map_sum id
        (\<lambda>c. (matchWhenEmpty c, fn c (JStr ''b/x''), fn c (JNum 1), fn c (JStr ''a/x'')))
        (compileCondition ''ruleSet[0].resource'' (RObject [(''not'', RStr ''a'')]))
       = Inr (True, Inr True, Inr True, Inr False)"
  using
    not_negates_condition
      [where q = "''q''" and C = "RStr ''a''"
         and m = "\<lparr>matchWhenEmpty = False,
                   fn = (\<lambda>str. Inr (case str of JStr x \<Rightarrow> startsWith x ''a''
                                     | _ \<Rightarrow> False))\<rparr>"
         and path = "''ruleSet[0].resource''"]
  by (auto simp: startsWith_def)

text \<open>
  Claim C8. The OR-combination and the AND-combination of a list of one condition are that
  condition itself, with the \<^verbatim>\<open>matchWhenEmpty\<close> it has: nothing is computed from its
  function. So an array of one condition, and an \<^verbatim>\<open>and\<close> of one condition, compile to what
  the condition compiles to at its sub-path.
\<close>

theorem combine_single_condition_unchanged:
  "combineConditionsOr [c] = c \<and> combineConditionsAnd [c] = c
   \<and> compileCondition path (RArray [x]) = compileCondition (path @ ''[0]'') x
   \<and> compileCondition path (RObject [(''and'', RArray [x])]) =
       compileCondition (path @ ''.and[0]'') x"
proof (intro conjI)
  show "combineConditionsOr [c] = c" by (simp add: combineConditionsOr_def)
  show "combineConditionsAnd [c] = c" by (simp add: combineConditionsAnd_def)
  show "compileCondition path (RArray [x]) = compileCondition (path @ ''[0]'') x"
    by (cases "compileCondition (path @ ''[0]'') x")
      (simp_all add: string_of_nat_digits combineConditionsOr_def)
  show "compileCondition path (RObject [(''and'', RArray [x])]) =
       compileCondition (path @ ''.and[0]'') x"
    by (cases "compileCondition (path @ ''.and[0]'') x")
      (simp_all add: string_of_nat_digits combineConditionsAnd_def)
qed

text \<open>A condition whose \<^verbatim>\<open>matchWhenEmpty\<close> is false although its function returns true on
  the empty string keeps both in the combination of the list that holds it alone.\<close>

theorem combine_single_condition_unchanged_witness:
  "matchWhenEmpty (combineConditionsOr [\<lparr>matchWhenEmpty = False, fn = (\<lambda>v. Inr True)\<rparr>]) = False
   \<and> fn (combineConditionsOr [\<lparr>matchWhenEmpty = False, fn = (\<lambda>v. Inr True)\<rparr>]) (JStr [])
       = Inr True
   \<and> matchWhenEmpty (combineConditionsAnd [\<lparr>matchWhenEmpty = False, fn = (\<lambda>v. Inr True)\<rparr>]) = False
   \<and> fn (combineConditionsAnd [\<lparr>matchWhenEmpty = False, fn = (\<lambda>v. Inr True)\<rparr>]) (JStr [])
       = Inr True"
  using combine_single_condition_unchanged
          [where c = "\<lparr>matchWhenEmpty = False, fn = (\<lambda>v. Inr True)\<rparr>"]
  by simp

section \<open>The rule compiler: a \<open>rules\<close> property that is not an array\<close>




section \<open>The executor: how a property path is resolved\<close>

text \<open>
  Claim C10. The two shapes of a path are resolved differently. An array path resolves to the
  value reached from the record by following the segments through own properties only
  (\<open>ownValue\<close>, the record itself for the empty path), and to \<^verbatim>\<open>undefined\<close> when a step
  meets a value that is no object or an object that does not own the segment: each step of
  the walk needs the current value to be an object that owns the segment. A property that
  the record only inherits from its prototype counts as absent, so the condition falls back
  to \<^verbatim>\<open>matchWhenEmpty\<close>; a property that the record owns is read. For a single name the test
  is \<^verbatim>\<open>p in data\<close> and the read is \<^verbatim>\<open>data[p]\<close>, which both follow the prototype chain: an
  inherited property is seen, and the value is absent only when that read gives
  \<^verbatim>\<open>undefined\<close>.
\<close>

theorem path_resolution_own_versus_inherited:
  "resolve data (Multi path) =
     (case ownValue (JObj data) path of Some v \<Rightarrow> v | None \<Rightarrow> JUndefined)
   \<and> resolve data (Multi []) = JObj data
   \<and> (hasOwn data k \<longrightarrow>
        resolve data (Multi [k]) = getProperty data k \<and>
        resolve data (Multi (k # p)) = walk (getProperty data k) p)
   \<and> execConditions data (c\<lparr>property := Multi path\<rparr> # cs) =
        (case ownValue (JObj data) path of
           None \<Rightarrow> if matchWhenEmpty c then execConditions data cs else Inr False
         | Some v \<Rightarrow>
             if v \<noteq> JUndefined then
               (case fn c v of
                  Inl e \<Rightarrow> Inl e
                | Inr b \<Rightarrow> if b then execConditions data cs else Inr False)
             else if matchWhenEmpty c then execConditions data cs else Inr False)
   \<and> walk current (subProperty # p) =
     (case current of
        JObj obj \<Rightarrow> if hasOwn obj subProperty then walk (getProperty obj subProperty) p
                    else JUndefined
      | _ \<Rightarrow> JUndefined)
   \<and> (\<not> hasOwn data k \<longrightarrow>
        resolve data (Multi (k # p)) = JUndefined \<and>
        execConditions data (c\<lparr>property := Multi (k # p)\<rparr> # cs) =
          (if matchWhenEmpty c then execConditions data cs else Inr False))
   \<and> resolve data (Single k) = getProperty data k
   \<and> resolve (Object ps (Some parent)) (Single k) =
        (case map_of ps k of Some v \<Rightarrow> v | None \<Rightarrow> resolve parent (Single k))
   \<and> execConditions data (c\<lparr>property := Single k\<rparr> # cs) =
        (if getProperty data k \<noteq> JUndefined then
           (case fn c (getProperty data k) of
              Inl e \<Rightarrow> Inl e
            | Inr b \<Rightarrow> if b then execConditions data cs else Inr False)
         else if matchWhenEmpty c then execConditions data cs else Inr False)"
proof (intro conjI impI)
  show m: "resolve data (Multi path) =
     (case ownValue (JObj data) path of Some v \<Rightarrow> v | None \<Rightarrow> JUndefined)"
    by (simp add: resolve_def walk_ownValue)
  show "execConditions data (c\<lparr>property := Multi path\<rparr> # cs) =
        (case ownValue (JObj data) path of
           None \<Rightarrow> if matchWhenEmpty c then execConditions data cs else Inr False
         | Some v \<Rightarrow>
             if v \<noteq> JUndefined then
               (case fn c v of
                  Inl e \<Rightarrow> Inl e
                | Inr b \<Rightarrow> if b then execConditions data cs else Inr False)
             else if matchWhenEmpty c then execConditions data cs else Inr False)"
    using m by (cases "ownValue (JObj data) path") (simp_all split: sum.splits)
next
  show "resolve data (Multi []) = JObj data"
    by (simp add: resolve_def)
next
  assume "hasOwn data k"
  then show "resolve data (Multi [k]) = getProperty data k"
    by (simp add: resolve_def)
next
  assume "hasOwn data k"
  then show "resolve data (Multi (k # p)) = walk (getProperty data k) p"
    by (simp add: resolve_def)
next
  show "walk current (subProperty # p) =
     (case current of
        JObj obj \<Rightarrow> if hasOwn obj subProperty then walk (getProperty obj subProperty) p
                    else JUndefined
      | _ \<Rightarrow> JUndefined)"
    by (rule walk_step)
next
  assume "\<not> hasOwn data k"
  then show "resolve data (Multi (k # p)) = JUndefined"
    by (rule resolve_Multi_not_own)
next
  assume "\<not> hasOwn data k"
  then have "resolve data (Multi (k # p)) = JUndefined"
    by (rule resolve_Multi_not_own)
  then show "execConditions data (c\<lparr>property := Multi (k # p)\<rparr> # cs) =
          (if matchWhenEmpty c then execConditions data cs else Inr False)"
    by simp
next
  show "resolve data (Single k) = getProperty data k"
    by (rule resolve_Single)
next
  show "resolve (Object ps (Some parent)) (Single k) =
        (case map_of ps k of Some v \<Rightarrow> v | None \<Rightarrow> resolve parent (Single k))"
    by (simp add: resolve_Single split: option.splits)
next
  show "execConditions data (c\<lparr>property := Single k\<rparr> # cs) =
        (if getProperty data k \<noteq> JUndefined then
           (case fn c (getProperty data k) of
              Inl e \<Rightarrow> Inl e
            | Inr b \<Rightarrow> if b then execConditions data cs else Inr False)
         else if matchWhenEmpty c then execConditions data cs else Inr False)"
    by (simp add: resolve_Single split: sum.splits)
qed

text \<open>The record \<^verbatim>\<open>{descriptionData: {type: "module"}}\<close>, which inherits
  \<^verbatim>\<open>resource: "x"\<close> from its prototype. The array path \<^verbatim>\<open>["descriptionData", "type"]\<close>
  resolves to \<^verbatim>\<open>"module"\<close>, and a condition on it is tested on that value; the path
  \<^verbatim>\<open>["descriptionData"]\<close> resolves to the nested record, the path
  \<^verbatim>\<open>["descriptionData", "name"]\<close> and the path \<^verbatim>\<open>["descriptionData", "type", "x"]\<close> to
  nothing. The single name \<^verbatim>\<open>resource\<close> resolves to \<^verbatim>\<open>"x"\<close> and the test \<^verbatim>\<open>"x"\<close>
  passes; the array path \<^verbatim>\<open>["resource"]\<close> resolves to nothing and the same test, whose
  \<^verbatim>\<open>matchWhenEmpty\<close> is false, fails.\<close>

theorem path_resolution_own_versus_inherited_witness:
  "hasOwn moduleRecord ''descriptionData''
   \<and> resolve moduleRecord (Multi [''descriptionData'', ''type'']) = JStr ''module''
   \<and> resolve moduleRecord (Multi [''descriptionData''])
       = JObj (Object [(''type'', JStr ''module'')] None)
   \<and> resolve moduleRecord (Multi [''descriptionData'', ''name'']) = JUndefined
   \<and> resolve moduleRecord (Multi [''descriptionData'', ''type'', ''x'']) = JUndefined
   \<and> execConditions moduleRecord
        [\<lparr>matchWhenEmpty = False, fn = (\<lambda>v. Inr (v = JStr ''module'')),
          property = Multi [''descriptionData'', ''type'']\<rparr>] = Inr True
   \<and> execConditions moduleRecord
        [\<lparr>matchWhenEmpty = True, fn = (\<lambda>v. Inr (v = JStr ''commonjs'')),
          property = Multi [''descriptionData'', ''type'']\<rparr>] = Inr False
   \<and> \<not> hasOwn moduleRecord ''resource''
   \<and> hasProperty moduleRecord ''resource''
   \<and> resolve moduleRecord (Multi [''resource'']) = JUndefined
   \<and> resolve moduleRecord (Single ''resource'') = JStr ''x''
   \<and> execConditions moduleRecord
        [(resourceTest ''x'')\<lparr>property := Multi [''resource'']\<rparr>] = Inr False
   \<and> execConditions moduleRecord
        [(resourceTest ''x'')\<lparr>property := Single ''resource''\<rparr>] = Inr True"
  using
    path_resolution_own_versus_inherited
      [where data = moduleRecord and path = "[''descriptionData'', ''type'']"
         and k = "''descriptionData''" and p = "[''type'']"
         and c = "\<lparr>matchWhenEmpty = False, fn = (\<lambda>v. Inr (v = JStr ''module'')),
                   property = Multi []\<rparr>"
         and cs = "[]"]
    path_resolution_own_versus_inherited
      [where data = moduleRecord and k = "''resource''" and p = "[]"
         and c = "resourceTest ''x''" and cs = "[]"
         and ps = "[(''descriptionData'', JObj (Object [(''type'', JStr ''module'')] None))]"
         and parent = "resourceRecord ''x''"]
  by (simp add: moduleRecord_def resolve_def startsWith_def resourceTest_def resourceRecord_def)

end
